theory Spec2Isabelle
  imports Main "HOL-Library.Word"
begin

unbundle bit_operations_syntax

section \<open>Bytes, typed arrays and errors\<close>

text \<open>
  A \<^verbatim>\<open>Uint8Array\<close> is a list of 8-bit words. JavaScript strings (plaintexts,
  passwords, base64 text) are values of type \<open>string\<close>. Every \<^verbatim>\<open>throw\<close> of the
  sources is a constructor of \<open>error\<close>, and a function that can throw returns
  \<open>error + 'a\<close> with \<open>Inl\<close> for the exception.
\<close>

type_synonym byte = "8 word"
type_synonym bytes = "byte list"

datatype error =
    BlobTooShort                \<comment> \<open>'Blob too short for header'\<close>
  | InvalidMagic string         \<comment> \<open>'Invalid magic: expected "SS1", got ...'\<close>
  | UnsupportedVersion nat      \<comment> \<open>'Unsupported version: ...'\<close>
  | UnknownKdfByte nat          \<comment> \<open>'Unknown KDF ID: 0x..' (parseHeader)\<close>
  | UnknownKdfName              \<comment> \<open>'Unknown KDF ID: ...' (createHeader, deserializeKdfParams)\<close>
  | RangeError                  \<comment> \<open>typed array or DataView access out of bounds\<close>
  | Argon2NotAvailable          \<comment> \<open>'Argon2 not available'\<close>
  | LibraryError                \<comment> \<open>an exception raised inside an external library\<close>
  | KeyDerivationFailed error   \<comment> \<open>'Key derivation failed: ...'\<close>
  | NaClEncryptionFailed        \<comment> \<open>'NaCl encryption failed'\<close>
  | IncorrectPasswordOrCorrupted \<comment> \<open>'Decryption failed: incorrect password or corrupted data'\<close>
  | LegacyEncryptionFailed      \<comment> \<open>'Encryption failed' (legacy)\<close>
  | LegacyTooShort              \<comment> \<open>'Encrypted text too short' (legacy)\<close>
  | LegacyIncorrectPassword     \<comment> \<open>'Incorrect password or corrupted data' (legacy)\<close>
  | DecryptionFailed            \<comment> \<open>'Decryption failed: incorrect password or unsupported format'\<close>

definition bindE :: "error + 'a \<Rightarrow> ('a \<Rightarrow> error + 'b) \<Rightarrow> error + 'b" where
  "bindE r f = (case r of Inl e \<Rightarrow> Inl e | Inr v \<Rightarrow> f v)"

definition zeros :: "nat \<Rightarrow> bytes" where
  \<comment> \<open>\<^verbatim>\<open>new Uint8Array(n)\<close>\<close>
  "zeros n = replicate n 0"

definition slice :: "bytes \<Rightarrow> nat \<Rightarrow> nat \<Rightarrow> bytes" where
  \<comment> \<open>\<^verbatim>\<open>a.slice(i, j)\<close> for \<open>0 \<le> i\<close>: both ends are clamped to the length\<close>
  "slice a i j = take (j - i) (drop i a)"

definition typed_set :: "bytes \<Rightarrow> bytes \<Rightarrow> nat \<Rightarrow> error + bytes" where
  \<comment> \<open>\<^verbatim>\<open>buf.set(src, off)\<close>: a RangeError when the source does not fit\<close>
  "typed_set buf src off =
     (if off + length src > length buf then Inl RangeError
      else Inr (take off buf @ src @ drop (off + length src) buf))"

definition setUint8 :: "bytes \<Rightarrow> nat \<Rightarrow> nat \<Rightarrow> error + bytes" where
  \<comment> \<open>\<^verbatim>\<open>view.setUint8(off, v)\<close>\<close>
  "setUint8 buf off v =
     (if off < length buf then Inr (buf[off := of_nat v]) else Inl RangeError)"

definition getUint8 :: "bytes \<Rightarrow> nat \<Rightarrow> error + nat" where
  "getUint8 buf off = (if off < length buf then Inr (unat (buf ! off)) else Inl RangeError)"

definition toUint32 :: "int \<Rightarrow> int" where
  \<comment> \<open>ECMAScript ToUint32 on an integral number\<close>
  "toUint32 x = x mod 2 ^ 32"

definition u32_le_bytes :: "int \<Rightarrow> bytes" where
  "u32_le_bytes x =
     (let v = toUint32 x in
      [word_of_int v, word_of_int (v div 2 ^ 8), word_of_int (v div 2 ^ 16),
       word_of_int (v div 2 ^ 24)])"

definition setUint32 :: "bytes \<Rightarrow> nat \<Rightarrow> int \<Rightarrow> error + bytes" where
  \<comment> \<open>\<^verbatim>\<open>view.setUint32(off, v, true)\<close>: little endian\<close>
  "setUint32 buf off v =
     (if off + 4 \<le> length buf
      then Inr (take off buf @ u32_le_bytes v @ drop (off + 4) buf)
      else Inl RangeError)"

definition getUint32 :: "bytes \<Rightarrow> nat \<Rightarrow> error + int" where
  \<comment> \<open>\<^verbatim>\<open>view.getUint32(off, true)\<close>: little endian\<close>
  "getUint32 buf off =
     (if off + 4 \<le> length buf
      then Inr (uint (buf ! off) + uint (buf ! (off + 1)) * 2 ^ 8
                + uint (buf ! (off + 2)) * 2 ^ 16 + uint (buf ! (off + 3)) * 2 ^ 24)
      else Inl RangeError)"

definition byte_of_char :: "char \<Rightarrow> byte" where
  "byte_of_char c = of_nat (of_char c)"

definition char_of_byte :: "byte \<Rightarrow> char" where
  "char_of_byte b = char_of (unat b)"

definition is_ascii :: "string \<Rightarrow> bool" where
  "is_ascii s = list_all (\<lambda>c. (of_char c :: nat) < 128) s"

section \<open>kdf.ts\<close>

text \<open>
  \<open>KdfId\<close> is the union \<^verbatim>\<open>'argon2id' | 'scrypt'\<close>; \<open>OtherKdf\<close> stands for a non-empty
  string outside the union, which only an ill-typed caller can pass and which the sources
  guard against with their \<^verbatim>\<open>Unknown KDF ID\<close> errors. The numeric fields are
  integral JavaScript numbers.
\<close>

datatype KdfId = Argon2id | Scrypt | OtherKdf

record KdfConfig =
  kdf_id :: KdfId
  kdf_m :: int
  kdf_t :: int
  kdf_p :: int
  kdf_N :: int
  kdf_r :: int
  kdf_s_p :: int
  kdf_keyLen :: int

text \<open>\<^verbatim>\<open>Partial<KdfConfig>\<close>: every field may be absent.\<close>

record KdfConfigPartial =
  opt_id :: "KdfId option"
  opt_m :: "int option"
  opt_t :: "int option"
  opt_p :: "int option"
  opt_N :: "int option"
  opt_r :: "int option"
  opt_s_p :: "int option"
  opt_keyLen :: "int option"

definition DEFAULT_ARGON2ID :: KdfConfig where
  "DEFAULT_ARGON2ID = \<lparr>kdf_id = Argon2id, kdf_m = 19 * 1024, kdf_t = 2, kdf_p = 1,
     kdf_N = 0, kdf_r = 0, kdf_s_p = 0, kdf_keyLen = 32\<rparr>"

definition DEFAULT_SCRYPT :: KdfConfig where
  "DEFAULT_SCRYPT = \<lparr>kdf_id = Scrypt, kdf_m = 0, kdf_t = 0, kdf_p = 0,
     kdf_N = 2 ^ 17, kdf_r = 8, kdf_s_p = 1, kdf_keyLen = 32\<rparr>"

definition MOBILE_SCRYPT :: KdfConfig where
  "MOBILE_SCRYPT = \<lparr>kdf_id = Scrypt, kdf_m = 0, kdf_t = 0, kdf_p = 0,
     kdf_N = 2 ^ 12, kdf_r = 8, kdf_s_p = 1, kdf_keyLen = 32\<rparr>"

definition spread :: "KdfConfig \<Rightarrow> KdfConfigPartial option \<Rightarrow> KdfConfig" where
  \<comment> \<open>\<^verbatim>\<open>{ ...defaults, ...cfg }\<close>; spreading \<^verbatim>\<open>undefined\<close> adds nothing\<close>
  "spread d cfg =
     (case cfg of
        None \<Rightarrow> d
      | Some c \<Rightarrow>
          \<lparr>kdf_id = (case opt_id c of None \<Rightarrow> kdf_id d | Some v \<Rightarrow> v),
           kdf_m = (case opt_m c of None \<Rightarrow> kdf_m d | Some v \<Rightarrow> v),
           kdf_t = (case opt_t c of None \<Rightarrow> kdf_t d | Some v \<Rightarrow> v),
           kdf_p = (case opt_p c of None \<Rightarrow> kdf_p d | Some v \<Rightarrow> v),
           kdf_N = (case opt_N c of None \<Rightarrow> kdf_N d | Some v \<Rightarrow> v),
           kdf_r = (case opt_r c of None \<Rightarrow> kdf_r d | Some v \<Rightarrow> v),
           kdf_s_p = (case opt_s_p c of None \<Rightarrow> kdf_s_p d | Some v \<Rightarrow> v),
           kdf_keyLen = (case opt_keyLen c of None \<Rightarrow> kdf_keyLen d | Some v \<Rightarrow> v)\<rparr>)"

definition cfg_id :: "KdfConfigPartial option \<Rightarrow> KdfId option" where
  \<comment> \<open>\<^verbatim>\<open>cfg?.id\<close>\<close>
  "cfg_id cfg = (case cfg of None \<Rightarrow> None | Some c \<Rightarrow> opt_id c)"

definition as_partial :: "KdfConfig \<Rightarrow> KdfConfigPartial" where
  \<comment> \<open>a \<^verbatim>\<open>Required<KdfConfig>\<close> passed where a \<^verbatim>\<open>Partial<KdfConfig>\<close> is expected\<close>
  "as_partial c = \<lparr>opt_id = Some (kdf_id c), opt_m = Some (kdf_m c), opt_t = Some (kdf_t c),
     opt_p = Some (kdf_p c), opt_N = Some (kdf_N c), opt_r = Some (kdf_r c),
     opt_s_p = Some (kdf_s_p c), opt_keyLen = Some (kdf_keyLen c)\<rparr>"

text \<open>
  The external collaborators of the core. None of them is code of the repository, so each
  is a parameter:
  \<^item> \<open>argon2id\<close>: hash-wasm's \<^verbatim>\<open>argon2id\<close> with arguments password, salt, parallelism,
    iterations, memorySize, hashLength; \<open>None\<close> when the module cannot be loaded
    (\<^verbatim>\<open>loadArgon2\<close> returns \<^verbatim>\<open>null\<close>);
  \<^item> \<open>scrypt\<close>: scrypt-js's \<^verbatim>\<open>scrypt(pw, salt, N, r, p, dkLen)\<close>;
  \<^item> \<open>secretbox\<close>, \<open>secretbox_open\<close>: tweetnacl's \<^verbatim>\<open>nacl.secretbox(msg, nonce, key)\<close> and
    \<^verbatim>\<open>nacl.secretbox.open(box, nonce, key)\<close>; \<open>Inr None\<close> is a falsy result
    (\<^verbatim>\<open>null\<close>), \<open>Inl\<close> an exception;
  \<^item> \<open>text_encode\<close>, \<open>text_decode\<close>: \<^verbatim>\<open>new TextEncoder().encode\<close> and
    \<^verbatim>\<open>new TextDecoder().decode\<close>;
  \<^item> \<open>from_base64\<close>: \<^verbatim>\<open>Buffer.from(b64, 'base64')\<close>.
  The capability is fixed for the calls that share a \<open>runtime\<close>.
\<close>

record runtime =
  argon2id :: "(string \<Rightarrow> bytes \<Rightarrow> int \<Rightarrow> int \<Rightarrow> int \<Rightarrow> int \<Rightarrow> error + bytes) option"
  scrypt :: "bytes \<Rightarrow> bytes \<Rightarrow> int \<Rightarrow> int \<Rightarrow> int \<Rightarrow> int \<Rightarrow> error + bytes"
  secretbox :: "bytes \<Rightarrow> bytes \<Rightarrow> bytes \<Rightarrow> error + bytes option"
  secretbox_open :: "bytes \<Rightarrow> bytes \<Rightarrow> bytes \<Rightarrow> error + bytes option"
  text_encode :: "string \<Rightarrow> bytes"
  text_decode :: "bytes \<Rightarrow> string"
  from_base64 :: "string \<Rightarrow> bytes"

definition deriveKeyArgon2id :: "runtime \<Rightarrow> string \<Rightarrow> bytes \<Rightarrow> KdfConfig \<Rightarrow> error + bytes" where
  "deriveKeyArgon2id rt password salt config =
     (case argon2id rt of
        None \<Rightarrow> Inl Argon2NotAvailable
      | Some argon2Lib \<Rightarrow>
          argon2Lib password salt (kdf_p config) (kdf_t config) (kdf_m config)
            (kdf_keyLen config))"

definition deriveKeyScrypt :: "runtime \<Rightarrow> string \<Rightarrow> bytes \<Rightarrow> KdfConfig \<Rightarrow> error + bytes" where
  "deriveKeyScrypt rt password salt config =
     scrypt rt (text_encode rt password) salt (kdf_N config) (kdf_r config) (kdf_s_p config)
       (kdf_keyLen config)"

definition deriveKey ::
  "runtime \<Rightarrow> string \<Rightarrow> bytes \<Rightarrow> KdfConfigPartial option \<Rightarrow> error + (bytes \<times> KdfConfig)" where
  "deriveKey rt password salt cfg =
     (let config = spread DEFAULT_ARGON2ID cfg;
          argon =
            (if kdf_id config = Argon2id \<or> cfg_id cfg = None
             then (case deriveKeyArgon2id rt password salt config of
                     Inr key \<Rightarrow> Some (key, config\<lparr>kdf_id := Argon2id\<rparr>)
                   | Inl _ \<Rightarrow> None)
             else None)
      in case argon of
           Some res \<Rightarrow> Inr res
         | None \<Rightarrow>
             (let scryptConfig =
                    (if cfg_id cfg = Some Scrypt then spread DEFAULT_SCRYPT cfg
                     else MOBILE_SCRYPT)
              in case deriveKeyScrypt rt password salt scryptConfig of
                   Inr key \<Rightarrow> Inr (key, scryptConfig)
                 | Inl e \<Rightarrow> Inl (KeyDerivationFailed e)))"

definition serializeKdfParams :: "KdfConfig \<Rightarrow> error + bytes" where
  "serializeKdfParams config =
     (let params = zeros 12 in
      case kdf_id config of
        Argon2id \<Rightarrow>
          bindE (setUint32 params 0 (kdf_m config)) (\<lambda>b1.
          bindE (setUint32 b1 4 (kdf_t config)) (\<lambda>b2.
          setUint32 b2 8 (kdf_p config)))
      | Scrypt \<Rightarrow>
          bindE (setUint32 params 0 (kdf_N config)) (\<lambda>b1.
          bindE (setUint32 b1 4 (kdf_r config)) (\<lambda>b2.
          setUint32 b2 8 (kdf_s_p config)))
      | OtherKdf \<Rightarrow> Inr params)"

definition deserializeKdfParams :: "KdfId \<Rightarrow> bytes \<Rightarrow> error + KdfConfig" where
  "deserializeKdfParams kdfId params =
     (case kdfId of
        Argon2id \<Rightarrow>
          bindE (getUint32 params 0) (\<lambda>m.
          bindE (getUint32 params 4) (\<lambda>t.
          bindE (getUint32 params 8) (\<lambda>p.
          Inr \<lparr>kdf_id = Argon2id, kdf_m = m, kdf_t = t, kdf_p = p,
               kdf_N = 0, kdf_r = 0, kdf_s_p = 0, kdf_keyLen = 32\<rparr>)))
      | Scrypt \<Rightarrow>
          bindE (getUint32 params 0) (\<lambda>N.
          bindE (getUint32 params 4) (\<lambda>r.
          bindE (getUint32 params 8) (\<lambda>s_p.
          Inr \<lparr>kdf_id = Scrypt, kdf_m = 0, kdf_t = 0, kdf_p = 0,
               kdf_N = N, kdf_r = r, kdf_s_p = s_p, kdf_keyLen = 32\<rparr>)))
      | OtherKdf \<Rightarrow> Inl UnknownKdfName)"

section \<open>crypto-header.ts\<close>

definition MAGIC :: string where
  "MAGIC = ''SS1''"

definition VERSION :: nat where
  "VERSION = 1"

definition KDF_IDS :: "KdfId \<Rightarrow> nat option" where
  "KDF_IDS k = (case k of Argon2id \<Rightarrow> Some 1 | Scrypt \<Rightarrow> Some 2 | OtherKdf \<Rightarrow> None)"

definition KDF_NAMES :: "nat \<Rightarrow> KdfId option" where
  "KDF_NAMES n = (if n = 1 then Some Argon2id else if n = 2 then Some Scrypt else None)"

definition HEADER_SIZE :: nat where
  "HEADER_SIZE = 3 + 1 + 1 + 12 + 16 + 24"

record CryptoHeader =
  hdr_magic :: string
  hdr_version :: nat
  hdr_kdfId :: KdfId
  hdr_kdfConfig :: KdfConfig
  hdr_salt :: bytes
  hdr_nonce :: bytes

definition createHeader :: "runtime \<Rightarrow> KdfConfig \<Rightarrow> bytes \<Rightarrow> bytes \<Rightarrow> error + bytes" where
  "createHeader rt kdfConfig salt nonce =
     bindE (typed_set (zeros HEADER_SIZE) (text_encode rt MAGIC) 0) (\<lambda>h1.
     bindE (setUint8 h1 3 VERSION) (\<lambda>h2.
     case KDF_IDS (kdf_id kdfConfig) of
       None \<Rightarrow> Inl UnknownKdfName
     | Some kdfIdByte \<Rightarrow>
         bindE (setUint8 h2 4 kdfIdByte) (\<lambda>h3.
         bindE (serializeKdfParams kdfConfig) (\<lambda>params.
         bindE (typed_set h3 params 5) (\<lambda>h4.
         bindE (typed_set h4 salt 17) (\<lambda>h5.
         typed_set h5 nonce 33))))))"

definition parseHeader :: "runtime \<Rightarrow> bytes \<Rightarrow> error + (CryptoHeader \<times> bytes)" where
  "parseHeader rt blob =
     (if length blob < HEADER_SIZE then Inl BlobTooShort
      else
        let magic = text_decode rt (slice blob 0 3) in
        if magic \<noteq> MAGIC then Inl (InvalidMagic magic)
        else
          bindE (getUint8 blob 3) (\<lambda>version.
          if version \<noteq> VERSION then Inl (UnsupportedVersion version)
          else
            bindE (getUint8 blob 4) (\<lambda>kdfIdByte.
            case KDF_NAMES kdfIdByte of
              None \<Rightarrow> Inl (UnknownKdfByte kdfIdByte)
            | Some kdfId \<Rightarrow>
                bindE (deserializeKdfParams kdfId (slice blob 5 17)) (\<lambda>kdfConfig.
                Inr (\<lparr>hdr_magic = magic, hdr_version = version, hdr_kdfId = kdfId,
                      hdr_kdfConfig = kdfConfig, hdr_salt = slice blob 17 33,
                      hdr_nonce = slice blob 33 57\<rparr>,
                     drop 57 blob)))))"

definition createBlob :: "bytes \<Rightarrow> bytes \<Rightarrow> error + bytes" where
  "createBlob header ciphertext =
     bindE (typed_set (zeros (length header + length ciphertext)) header 0) (\<lambda>b1.
     typed_set b1 ciphertext (length header))"

text \<open>
  \<^verbatim>\<open>Buffer.from(blob).toString('base64')\<close>: the standard alphabet, three bytes to four
  characters, \<^verbatim>\<open>=\<close> padding.
\<close>

definition b64_alphabet :: string where
  "b64_alphabet = ''ABCDEFGHIJKLMNOPQRSTUVWXYZabcdefghijklmnopqrstuvwxyz0123456789+/''"

definition b64_char :: "nat \<Rightarrow> char" where
  "b64_char i = b64_alphabet ! i"

fun blobToBase64 :: "bytes \<Rightarrow> string" where
  "blobToBase64 (a # b # c # rest) =
     (let n = unat a * 65536 + unat b * 256 + unat c in
      b64_char (n div 262144) # b64_char (n div 4096 mod 64) # b64_char (n div 64 mod 64)
        # b64_char (n mod 64) # blobToBase64 rest)"
| "blobToBase64 [a, b] =
     (let n = unat a * 65536 + unat b * 256 in
      [b64_char (n div 262144), b64_char (n div 4096 mod 64), b64_char (n div 64 mod 64),
       CHR ''=''])"
| "blobToBase64 [a] =
     (let n = unat a * 65536 in
      [b64_char (n div 262144), b64_char (n div 4096 mod 64), CHR ''='', CHR ''=''])"
| "blobToBase64 [] = []"

definition base64ToBlob :: "runtime \<Rightarrow> string \<Rightarrow> bytes" where
  "base64ToBlob rt b64 = from_base64 rt b64"

section \<open>crypto-v2.ts\<close>

definition SALT_LEN :: nat where
  "SALT_LEN = 16"

definition NONCE_LEN :: nat where
  "NONCE_LEN = 24"

text \<open>
  \<open>encryptV2\<close> draws its salt and its nonce from \<^verbatim>\<open>Crypto.getRandomBytesAsync\<close>; the two
  draws are the arguments \<open>salt\<close> and \<open>nonce\<close> of the model, of \<open>SALT_LEN\<close> and
  \<open>NONCE_LEN\<close> bytes in every call the program makes.
\<close>

definition encryptV2 ::
  "runtime \<Rightarrow> bytes \<Rightarrow> bytes \<Rightarrow> string \<Rightarrow> string \<Rightarrow> KdfConfigPartial option \<Rightarrow> error + string" where
  "encryptV2 rt salt nonce plaintext password kdfConfig =
     bindE (deriveKey rt password salt kdfConfig) (\<lambda>(key, config).
     let msg = text_encode rt plaintext in
     bindE (secretbox rt msg nonce key) (\<lambda>boxed.
     case boxed of
       None \<Rightarrow> Inl NaClEncryptionFailed
     | Some box \<Rightarrow>
         bindE (createHeader rt config salt nonce) (\<lambda>header.
         bindE (createBlob header box) (\<lambda>blob.
         Inr (blobToBase64 blob)))))"

definition decryptV2 :: "runtime \<Rightarrow> string \<Rightarrow> string \<Rightarrow> error + string" where
  "decryptV2 rt b64 password =
     (let blob = base64ToBlob rt b64 in
      bindE (parseHeader rt blob) (\<lambda>(header, ciphertext).
      bindE (deriveKey rt password (hdr_salt header) (Some (as_partial (hdr_kdfConfig header))))
        (\<lambda>(key, config).
      bindE (secretbox_open rt ciphertext (hdr_nonce header) key) (\<lambda>opened.
      case opened of
        None \<Rightarrow> Inl IncorrectPasswordOrCorrupted
      | Some plain \<Rightarrow> Inr (text_decode rt plain)))))"

definition getKdfInfo :: "runtime \<Rightarrow> string \<Rightarrow> (KdfId \<times> KdfConfig) option" where
  "getKdfInfo rt b64 =
     (case parseHeader rt (base64ToBlob rt b64) of
        Inr (header, ciphertext) \<Rightarrow> Some (hdr_kdfId header, hdr_kdfConfig header)
      | Inl _ \<Rightarrow> None)"

section \<open>legacy-crypto.ts\<close>

definition KEY_LEN :: int where
  "KEY_LEN = 32"

definition SCRYPT_N :: int where
  "SCRYPT_N = 2 ^ 12"

definition SCRYPT_r :: int where
  "SCRYPT_r = 8"

definition SCRYPT_p :: int where
  "SCRYPT_p = 1"

definition deriveKeyLegacy :: "runtime \<Rightarrow> string \<Rightarrow> bytes \<Rightarrow> error + bytes" where
  "deriveKeyLegacy rt password salt =
     scrypt rt (text_encode rt password) salt SCRYPT_N SCRYPT_r SCRYPT_p KEY_LEN"

definition encryptToBase64Legacy ::
  "runtime \<Rightarrow> bytes \<Rightarrow> bytes \<Rightarrow> string \<Rightarrow> string \<Rightarrow> error + string" where
  "encryptToBase64Legacy rt salt nonce plaintext password =
     bindE (deriveKeyLegacy rt password salt) (\<lambda>key.
     let msg = text_encode rt plaintext in
     bindE (secretbox rt msg nonce key) (\<lambda>boxed.
     case boxed of
       None \<Rightarrow> Inl LegacyEncryptionFailed
     | Some box \<Rightarrow>
         bindE (typed_set (zeros (length salt + length nonce + length box)) salt 0) (\<lambda>p1.
         bindE (typed_set p1 nonce (length salt)) (\<lambda>p2.
         bindE (typed_set p2 box (length salt + length nonce)) (\<lambda>packed.
         Inr (blobToBase64 packed))))))"

definition decryptFromBase64 :: "runtime \<Rightarrow> string \<Rightarrow> string \<Rightarrow> error + string" where
  "decryptFromBase64 rt b64 password =
     (let all = from_base64 rt b64 in
      if length all \<le> SALT_LEN + NONCE_LEN + 16 then Inl LegacyTooShort
      else
        let salt = slice all 0 SALT_LEN;
            nonce = slice all SALT_LEN (SALT_LEN + NONCE_LEN);
            box = drop (SALT_LEN + NONCE_LEN) all
        in
        bindE (deriveKeyLegacy rt password salt) (\<lambda>key.
        bindE (secretbox_open rt box nonce key) (\<lambda>opened.
        case opened of
          None \<Rightarrow> Inl LegacyIncorrectPassword
        | Some plain \<Rightarrow> Inr (text_decode rt plain))))"

text \<open>
  \<open>decryptAuto\<close> (crypto-v2.ts): the inner \<^verbatim>\<open>catch\<close> replaces whatever the legacy
  path raised by one fixed error.
\<close>

definition decryptAuto :: "runtime \<Rightarrow> string \<Rightarrow> string \<Rightarrow> error + string" where
  "decryptAuto rt b64 password =
     (case decryptV2 rt b64 password of
        Inr plain \<Rightarrow> Inr plain
      | Inl error \<Rightarrow>
          (case decryptFromBase64 rt b64 password of
             Inr plain \<Rightarrow> Inr plain
           | Inl legacyError \<Rightarrow> Inl DecryptionFailed))"

section \<open>CryptoVault.tsx\<close>


definition is_white_space :: "char \<Rightarrow> bool" where
  \<comment> \<open>the white space and line terminators of \<^verbatim>\<open>String.prototype.trim\<close> among the
      8-bit characters: TAB, LF, VT, FF, CR, SPACE\<close>
  "is_white_space c = (c \<in> {CHR 0x09, CHR 0x0A, CHR 0x0B, CHR 0x0C, CHR 0x0D, CHR 0x20})"

definition trim :: "string \<Rightarrow> string" where
  "trim s = rev (dropWhile is_white_space (rev (dropWhile is_white_space s)))"






section \<open>Contracts of the external collaborators\<close>

text \<open>
  What the theorems below assume of the libraries, each a documented property of the
  library it names.
  \<^item> Text codec: decoding an encoded text gives the text back; ASCII text is encoded as
    its character codes; and a byte sequence that decodes to ASCII text of the same length
    is that text's character codes. The texts of the model are the strings the UTF-8
    codec preserves: a JavaScript string with an unpaired surrogate, or with a leading
    U+FEFF that the decoder would strip as a byte order mark, is not among them.
  \<^item> Base64: \<^verbatim>\<open>Buffer.from(s, 'base64')\<close> inverts \<^verbatim>\<open>toString('base64')\<close>.
  \<^item> secretbox (XSalsa20-Poly1305): a box is 16 bytes longer than its message; with a
    32-byte key and a 24-byte nonce, sealing succeeds and opening the box with the same
    nonce and key returns the message; an input shorter than the 16-byte tag never opens.
  \<^item> Key derivation: a derived key has the requested length; scrypt accepts the
    parameters \<open>N = 4096\<close>, \<open>r = 8\<close>, \<open>p = 1\<close>, \<open>dkLen = 32\<close> for every password and salt.
\<close>

definition text_codec_ok :: "runtime \<Rightarrow> bool" where
  "text_codec_ok rt \<longleftrightarrow>
     (\<forall>s. text_decode rt (text_encode rt s) = s) \<and>
     (\<forall>s. is_ascii s \<longrightarrow> text_encode rt s = map byte_of_char s) \<and>
     (\<forall>bs. is_ascii (text_decode rt bs) \<and> length (text_decode rt bs) = length bs
            \<longrightarrow> bs = map byte_of_char (text_decode rt bs))"

definition base64_ok :: "runtime \<Rightarrow> bool" where
  "base64_ok rt \<longleftrightarrow> (\<forall>bs. from_base64 rt (blobToBase64 bs) = bs)"

definition secretbox_ok :: "runtime \<Rightarrow> bool" where
  "secretbox_ok rt \<longleftrightarrow>
     (\<forall>m n k c. secretbox rt m n k = Inr (Some c) \<longrightarrow> length c = length m + 16) \<and>
     (\<forall>m n k. length k = 32 \<and> length n = 24 \<longrightarrow>
        (\<exists>c. secretbox rt m n k = Inr (Some c) \<and> secretbox_open rt c n k = Inr (Some m))) \<and>
     (\<forall>c n k m. length c < 16 \<longrightarrow> secretbox_open rt c n k \<noteq> Inr (Some m))"

definition kdf_ok :: "runtime \<Rightarrow> bool" where
  "kdf_ok rt \<longleftrightarrow>
     (\<forall>pw s N r p l k. scrypt rt pw s N r p l = Inr k \<longrightarrow> int (length k) = l) \<and>
     (\<forall>pw s. \<exists>k. scrypt rt pw s (2 ^ 12) 8 1 32 = Inr k) \<and>
     (\<forall>f pw s p t m l k. argon2id rt = Some f \<and> f pw s p t m l = Inr k \<longrightarrow> int (length k) = l)"

definition runtime_ok :: "runtime \<Rightarrow> bool" where
  "runtime_ok rt \<longleftrightarrow> text_codec_ok rt \<and> base64_ok rt \<and> secretbox_ok rt \<and> kdf_ok rt"

text \<open>
  The configurations the 12-byte parameter field represents exactly: a known KDF, the
  default key length, the three parameters of the active variant in the range of an
  unsigned 32-bit integer, and zero in the fields of the other variant.
\<close>

definition in_uint32 :: "int \<Rightarrow> bool" where
  "in_uint32 x \<longleftrightarrow> 0 \<le> x \<and> x < 2 ^ 32"

definition canonical :: "KdfConfig \<Rightarrow> bool" where
  "canonical c \<longleftrightarrow>
     kdf_keyLen c = 32 \<and>
     (case kdf_id c of
        Argon2id \<Rightarrow> in_uint32 (kdf_m c) \<and> in_uint32 (kdf_t c) \<and> in_uint32 (kdf_p c)
                      \<and> kdf_N c = 0 \<and> kdf_r c = 0 \<and> kdf_s_p c = 0
      | Scrypt \<Rightarrow> in_uint32 (kdf_N c) \<and> in_uint32 (kdf_r c) \<and> in_uint32 (kdf_s_p c)
                      \<and> kdf_m c = 0 \<and> kdf_t c = 0 \<and> kdf_p c = 0
      | OtherKdf \<Rightarrow> False)"

section \<open>A reference runtime\<close>

text \<open>
  Executable stand-ins for the collaborators, small enough to evaluate: a strict base64
  decoder, the 8-bit text codec, a key stretcher that mixes password, salt and one cost
  parameter, and a box that carries half of the key as its tag. They satisfy the
  contracts above (proved below), so the contracts are consistent and every theorem can
  be run on concrete inputs.
\<close>

definition b64_index :: "char \<Rightarrow> nat" where
  "b64_index c =
     (let n = (of_char c :: nat) in
      if 65 \<le> n \<and> n \<le> 90 then n - 65
      else if 97 \<le> n \<and> n \<le> 122 then n - 71
      else if 48 \<le> n \<and> n \<le> 57 then n + 4
      else if n = 43 then 62 else 63)"

fun ref_from_base64 :: "string \<Rightarrow> bytes" where
  "ref_from_base64 (w # x # y # z # rest) =
     (if y = CHR ''='' then
        [of_nat ((b64_index w * 262144 + b64_index x * 4096) div 65536)]
      else if z = CHR ''='' then
        (let n = b64_index w * 262144 + b64_index x * 4096 + b64_index y * 64 in
         [of_nat (n div 65536), of_nat (n div 256 mod 256)])
      else
        (let n = b64_index w * 262144 + b64_index x * 4096 + b64_index y * 64 + b64_index z in
         of_nat (n div 65536) # of_nat (n div 256 mod 256) # of_nat (n mod 256)
           # ref_from_base64 rest))"
| "ref_from_base64 _ = []"

definition ref_stretch :: "bytes \<Rightarrow> bytes \<Rightarrow> int \<Rightarrow> int \<Rightarrow> bytes" where
  "ref_stretch pw s cost l = replicate (nat l) (foldr (+) (pw @ s) (word_of_int cost))"

definition ref_scrypt :: "bytes \<Rightarrow> bytes \<Rightarrow> int \<Rightarrow> int \<Rightarrow> int \<Rightarrow> int \<Rightarrow> error + bytes" where
  "ref_scrypt pw s N r p l = (if 0 \<le> l then Inr (ref_stretch pw s N l) else Inl LibraryError)"

definition ref_argon2id :: "string \<Rightarrow> bytes \<Rightarrow> int \<Rightarrow> int \<Rightarrow> int \<Rightarrow> int \<Rightarrow> error + bytes" where
  "ref_argon2id pw s p t m l =
     (if 0 \<le> l then Inr (ref_stretch (map byte_of_char pw) s (m + 1) l) else Inl LibraryError)"

definition ref_secretbox :: "bytes \<Rightarrow> bytes \<Rightarrow> bytes \<Rightarrow> error + bytes option" where
  "ref_secretbox msg n k =
     (if length k = 32 \<and> length n = 24
      then Inr (Some (take 16 k @ map (\<lambda>b. b + k ! 16) msg))
      else Inl LibraryError)"

definition ref_secretbox_open :: "bytes \<Rightarrow> bytes \<Rightarrow> bytes \<Rightarrow> error + bytes option" where
  "ref_secretbox_open box n k =
     (if length k = 32 \<and> length n = 24
      then (if length box < 16 \<or> take 16 box \<noteq> take 16 k then Inr None
            else Inr (Some (map (\<lambda>b. b - k ! 16) (drop 16 box))))
      else Inl LibraryError)"

definition reference_runtime :: runtime where
  "reference_runtime =
     \<lparr>argon2id = Some ref_argon2id, scrypt = ref_scrypt, secretbox = ref_secretbox,
      secretbox_open = ref_secretbox_open, text_encode = map byte_of_char,
      text_decode = map char_of_byte, from_base64 = ref_from_base64\<rparr>"

definition scrypt_only_runtime :: runtime where
  \<comment> \<open>the same runtime without the Argon2id capability\<close>
  "scrypt_only_runtime = reference_runtime\<lparr>argon2id := None\<rparr>"

text \<open>What the decoder needs of entry \<open>i\<close> of the alphabet.\<close>

definition b64_entry_ok :: "nat \<Rightarrow> bool" where
  "b64_entry_ok i \<longleftrightarrow>
     b64_index (b64_char i) = i \<and> b64_char i \<noteq> CHR ''='' \<and> \<not> is_white_space (b64_char i)"

text \<open>Concrete inputs on which the theorems are instantiated.\<close>

definition sample_salt :: bytes where
  "sample_salt = replicate 16 0xA5"

definition sample_nonce :: bytes where
  "sample_nonce = replicate 24 0x5A"

definition long_key_config :: KdfConfig where
  \<comment> \<open>the Argon2id defaults with a 64-byte key requested\<close>
  "long_key_config = DEFAULT_ARGON2ID\<lparr>kdf_keyLen := 64\<rparr>"

definition heavy_request :: KdfConfigPartial where
  \<comment> \<open>a caller's request that overrides the Argon2id cost parameters only\<close>
  "heavy_request = \<lparr>opt_id = None, opt_m = Some 1048576, opt_t = Some 8, opt_p = Some 4,
     opt_N = None, opt_r = None, opt_s_p = None, opt_keyLen = None\<rparr>"

definition version2_blob :: bytes where
  \<comment> \<open>a header-sized blob with the right magic and version byte 2\<close>
  "version2_blob = [0x53, 0x53, 0x31, 2] @ replicate 53 0"

definition unknown_kdf_blob :: bytes where
  \<comment> \<open>a header-sized blob with the right magic and version, and KDF id byte 3\<close>
  "unknown_kdf_blob = [0x53, 0x53, 0x31, 1, 3] @ replicate 52 0"

definition draw1 :: "bytes \<times> bytes" where
  "draw1 = (replicate 16 0x11, replicate 24 0x12)"

definition draw2 :: "bytes \<times> bytes" where
  "draw2 = (replicate 16 0x21, replicate 24 0x22)"

definition draw3 :: "bytes \<times> bytes" where
  "draw3 = (replicate 16 0x31, replicate 24 0x32)"

text \<open>\<^verbatim>\<open>parseHeader(createHeader(cfg, salt, nonce))\<close>, the composition the header round trip is about.\<close>

definition header_round_trip ::
  "runtime \<Rightarrow> KdfConfig \<Rightarrow> bytes \<Rightarrow> bytes \<Rightarrow> error + (CryptoHeader \<times> bytes)" where
  "header_round_trip rt cfg salt nonce = bindE (createHeader rt cfg salt nonce) (parseHeader rt)"

section \<open>Typed-array and serialization lemmas\<close>

lemma bindE_Inl [simp]: "bindE (Inl e) f = Inl e"
  by (simp add: bindE_def)

lemma bindE_Inr [simp]: "bindE (Inr v) f = f v"
  by (simp add: bindE_def)

lemma bindE_eq_Inr: "bindE r f = Inr y \<longleftrightarrow> (\<exists>v. r = Inr v \<and> f v = Inr y)"
  by (cases r) simp_all

lemma length_u32_le_bytes [simp]: "length (u32_le_bytes x) = 4"
  by (simp add: u32_le_bytes_def Let_def)

lemma le_digits:
  fixes y :: int
  shows "y mod 256 + y div 256 mod 256 * 256 + y div 65536 mod 256 * 65536
           + y div 16777216 * 16777216 = y"
proof -
  define a where "a = y div 256"
  define b where "b = a div 256"
  define c where "c = b div 256"
  have b_eq: "y div 65536 = b"
    using zdiv_zmult2_eq [of 256 y 256] by (simp add: a_def b_def)
  have c_eq: "y div 16777216 = c"
    using zdiv_zmult2_eq [of 256 y 65536] b_eq
    by (simp add: c_def)
  have 1: "y = y mod 256 + 256 * a" by (simp add: a_def)
  have 2: "a = a mod 256 + 256 * b" by (simp add: b_def)
  have 3: "b = b mod 256 + 256 * c" by (simp add: c_def)
  show ?thesis
    unfolding b_eq c_eq a_def [symmetric]
    using 1 2 3 by linarith
qed

lemma uint_byte_of_int: "uint (word_of_int k :: byte) = k mod 256"
  by (simp add: uint_word_of_int take_bit_eq_mod)

lemma u32_le_value:
  fixes y :: int
  assumes "0 \<le> y" "y < 4294967296"
  shows "uint (word_of_int y :: byte)
     + uint (word_of_int (y div 256) :: byte) * 256
     + uint (word_of_int (y div 65536) :: byte) * 65536
     + uint (word_of_int (y div 16777216) :: byte) * 16777216 = y"
proof -
  from assms have "0 \<le> y div 16777216" "y div 16777216 < 256" by simp_all
  then have "y div 16777216 mod 256 = y div 16777216" by simp
  then show ?thesis
    unfolding uint_byte_of_int using le_digits [of y] by linarith
qed

lemma getUint32_u32_le_bytes:
  "length pre = off \<Longrightarrow> getUint32 (pre @ u32_le_bytes x @ post) off = Inr (toUint32 x)"
  using u32_le_value [of "x mod 4294967296"]
  by (simp add: getUint32_def nth_append u32_le_bytes_def Let_def toUint32_def)

lemma toUint32_id: "0 \<le> x \<Longrightarrow> x < 2 ^ 32 \<Longrightarrow> toUint32 x = x"
  by (simp add: toUint32_def)

lemma serializeKdfParams_Argon2id:
  "kdf_id c = Argon2id \<Longrightarrow>
   serializeKdfParams c
     = Inr (u32_le_bytes (kdf_m c) @ u32_le_bytes (kdf_t c) @ u32_le_bytes (kdf_p c))"
  by (simp add: serializeKdfParams_def setUint32_def zeros_def)

lemma serializeKdfParams_Scrypt:
  "kdf_id c = Scrypt \<Longrightarrow>
   serializeKdfParams c
     = Inr (u32_le_bytes (kdf_N c) @ u32_le_bytes (kdf_r c) @ u32_le_bytes (kdf_s_p c))"
  by (simp add: serializeKdfParams_def setUint32_def zeros_def)

lemma serializeKdfParams_length:
  assumes "serializeKdfParams c = Inr ps"
  shows "length ps = 12"
proof (cases "kdf_id c")
  case Argon2id
  with assms serializeKdfParams_Argon2id [of c] show ?thesis by auto
next
  case Scrypt
  with assms serializeKdfParams_Scrypt [of c] show ?thesis by auto
next
  case OtherKdf
  with assms show ?thesis by (auto simp: serializeKdfParams_def zeros_def)
qed

lemma deserializeKdfParams_u32:
  "deserializeKdfParams Argon2id (u32_le_bytes a @ u32_le_bytes b @ u32_le_bytes c) =
     Inr \<lparr>kdf_id = Argon2id, kdf_m = toUint32 a, kdf_t = toUint32 b, kdf_p = toUint32 c,
          kdf_N = 0, kdf_r = 0, kdf_s_p = 0, kdf_keyLen = 32\<rparr>"
  "deserializeKdfParams Scrypt (u32_le_bytes a @ u32_le_bytes b @ u32_le_bytes c) =
     Inr \<lparr>kdf_id = Scrypt, kdf_m = 0, kdf_t = 0, kdf_p = 0,
          kdf_N = toUint32 a, kdf_r = toUint32 b, kdf_s_p = toUint32 c, kdf_keyLen = 32\<rparr>"
  using getUint32_u32_le_bytes [of "[]" 0 a "u32_le_bytes b @ u32_le_bytes c"]
        getUint32_u32_le_bytes [of "u32_le_bytes a" 4 b "u32_le_bytes c"]
        getUint32_u32_le_bytes [of "u32_le_bytes a @ u32_le_bytes b" 8 c "[]"]
  by (simp_all add: deserializeKdfParams_def)

lemma typed_set_length: "typed_set buf src off = Inr b \<Longrightarrow> length b = length buf"
  by (auto simp: typed_set_def split: if_splits)

lemma setUint8_length: "setUint8 buf off v = Inr b \<Longrightarrow> length b = length buf"
  by (auto simp: setUint8_def split: if_splits)

lemma typed_set_mid:
  "length pre = off \<Longrightarrow> length mid = length src \<Longrightarrow>
   typed_set (pre @ mid @ post) src off = Inr (pre @ src @ post)"
  by (simp add: typed_set_def)

lemma setUint8_mid:
  "length pre = off \<Longrightarrow> setUint8 (pre @ x # post) off v = Inr (pre @ of_nat v # post)"
  by (simp add: setUint8_def list_update_append)

lemma createBlob_append: "createBlob header ciphertext = Inr (header @ ciphertext)"
  by (simp add: createBlob_def typed_set_def zeros_def)

section \<open>The header layout\<close>

lemma zeros_header:
  "zeros HEADER_SIZE = [] @ zeros 3 @ (0 # 0 # zeros 12 @ zeros 16 @ zeros 24)"
  by (simp add: zeros_def HEADER_SIZE_def replicate_add [symmetric] flip: replicate_Suc)

lemma createHeader_layout:
  assumes magic: "text_encode rt MAGIC = [0x53, 0x53, 0x31]"
    and kid: "KDF_IDS (kdf_id c) = Some i"
    and ps: "serializeKdfParams c = Inr ps"
    and salt: "length salt = 16" and nonce: "length nonce = 24"
  shows "createHeader rt c salt nonce
           = Inr ([0x53, 0x53, 0x31, 1, of_nat i] @ ps @ salt @ nonce)"
proof -
  have lps: "length ps = 12" using ps by (rule serializeKdfParams_length)
  have 1: "typed_set (zeros HEADER_SIZE) (text_encode rt MAGIC) 0
             = Inr ([0x53, 0x53, 0x31] @ (0 # 0 # zeros 12 @ zeros 16 @ zeros 24))"
    unfolding zeros_header magic
    using typed_set_mid [of "[]" 0 "zeros 3" "[0x53, 0x53, 0x31]"] by (simp add: zeros_def)
  have 2: "setUint8 ([0x53, 0x53, 0x31] @ (0 # 0 # zeros 12 @ zeros 16 @ zeros 24)) 3 VERSION
             = Inr ([0x53, 0x53, 0x31] @ (1 # 0 # zeros 12 @ zeros 16 @ zeros 24))"
    using setUint8_mid [of "[0x53, 0x53, 0x31]" 3] by (simp add: VERSION_def)
  have 3: "setUint8 ([0x53, 0x53, 0x31] @ (1 # 0 # zeros 12 @ zeros 16 @ zeros 24)) 4 i
             = Inr ([0x53, 0x53, 0x31, 1] @ (of_nat i # zeros 12 @ zeros 16 @ zeros 24))"
    using setUint8_mid [of "[0x53, 0x53, 0x31, 1]" 4 0 "zeros 12 @ zeros 16 @ zeros 24" i] by simp
  have 4: "typed_set ([0x53, 0x53, 0x31, 1] @ (of_nat i # zeros 12 @ zeros 16 @ zeros 24)) ps 5
             = Inr ([0x53, 0x53, 0x31, 1, of_nat i] @ ps @ zeros 16 @ zeros 24)"
    using typed_set_mid [of "[0x53, 0x53, 0x31, 1, of_nat i]" 5 "zeros 12" ps "zeros 16 @ zeros 24"] lps
    by (simp add: zeros_def)
  have 5: "typed_set ([0x53, 0x53, 0x31, 1, of_nat i] @ ps @ zeros 16 @ zeros 24) salt 17
             = Inr (([0x53, 0x53, 0x31, 1, of_nat i] @ ps) @ salt @ zeros 24)"
    using typed_set_mid [of "[0x53, 0x53, 0x31, 1, of_nat i] @ ps" 17 "zeros 16" salt "zeros 24"] lps salt
    by (simp add: zeros_def)
  have 6: "typed_set (([0x53, 0x53, 0x31, 1, of_nat i] @ ps) @ salt @ zeros 24) nonce 33
             = Inr (([0x53, 0x53, 0x31, 1, of_nat i] @ ps @ salt) @ nonce @ [])"
    using typed_set_mid [of "[0x53, 0x53, 0x31, 1, of_nat i] @ ps @ salt" 33 "zeros 24" nonce "[]"] lps salt nonce
    by (simp add: zeros_def)
  show ?thesis
    unfolding createHeader_def 1 bindE_Inr 2 kid option.case 3 ps 4 5 6 by simp
qed

lemma createHeader_length:
  "createHeader rt c salt nonce = Inr h \<Longrightarrow> length h = 57"
  by (auto simp: createHeader_def bindE_eq_Inr HEADER_SIZE_def zeros_def split: option.splits
        dest!: typed_set_length setUint8_length)

lemma parseHeader_too_short: "length blob < 57 \<Longrightarrow> parseHeader rt blob = Inl BlobTooShort"
  by (simp add: parseHeader_def HEADER_SIZE_def)

lemma parseHeader_success:
  assumes "parseHeader rt blob = Inr (h, ct)"
  shows "57 \<le> length blob \<and> text_decode rt (take 3 blob) = MAGIC \<and> unat (blob ! 3) = 1
         \<and> KDF_NAMES (unat (blob ! 4)) = Some (hdr_kdfId h)
         \<and> deserializeKdfParams (hdr_kdfId h) (slice blob 5 17) = Inr (hdr_kdfConfig h)
         \<and> hdr_magic h = MAGIC \<and> hdr_version h = 1
         \<and> hdr_salt h = slice blob 17 33 \<and> hdr_nonce h = slice blob 33 57
         \<and> ct = drop 57 blob"
  using assms
  by (auto simp: parseHeader_def HEADER_SIZE_def Let_def getUint8_def slice_def VERSION_def
        bindE_eq_Inr split: if_splits option.splits)

lemma parseHeader_layout:
  assumes dec: "text_decode rt [0x53, 0x53, 0x31] = MAGIC"
    and kid: "KDF_NAMES i = Some k"
    and ps: "length ps = 12" and salt: "length salt = 16" and nonce: "length nonce = 24"
  shows "parseHeader rt ([0x53, 0x53, 0x31, 1, of_nat i] @ ps @ salt @ nonce @ ct)
           = bindE (deserializeKdfParams k ps) (\<lambda>cfg.
               Inr (\<lparr>hdr_magic = MAGIC, hdr_version = 1, hdr_kdfId = k, hdr_kdfConfig = cfg,
                     hdr_salt = salt, hdr_nonce = nonce\<rparr>, ct))"
proof -
  have i: "i = 1 \<or> i = 2" using kid by (auto simp: KDF_NAMES_def split: if_splits)
  then have u: "unat (of_nat i :: byte) = i" by auto
  show ?thesis
    using dec kid ps salt nonce u
    by (simp add: parseHeader_def HEADER_SIZE_def Let_def getUint8_def slice_def VERSION_def
          nth_append)
qed

lemma deserializeKdfParams_canonical:
  assumes "deserializeKdfParams k ps = Inr cfg"
  shows "kdf_id cfg = k \<and> kdf_keyLen cfg = 32
         \<and> (k = Argon2id \<longrightarrow> kdf_N cfg = 0 \<and> kdf_r cfg = 0 \<and> kdf_s_p cfg = 0)
         \<and> (k = Scrypt \<longrightarrow> kdf_m cfg = 0 \<and> kdf_t cfg = 0 \<and> kdf_p cfg = 0)"
  using assms
  by (cases k) (auto simp: deserializeKdfParams_def bindE_eq_Inr)

lemma magic_bytes: "map byte_of_char MAGIC = [0x53, 0x53, 0x31]"
  by (simp add: MAGIC_def byte_of_char_def)

lemma is_ascii_MAGIC: "is_ascii MAGIC"
  by (simp add: MAGIC_def is_ascii_def)

lemma text_encode_MAGIC: "text_codec_ok rt \<Longrightarrow> text_encode rt MAGIC = [0x53, 0x53, 0x31]"
  using is_ascii_MAGIC magic_bytes by (simp add: text_codec_ok_def)

lemma text_decode_MAGIC: "text_codec_ok rt \<Longrightarrow> text_decode rt [0x53, 0x53, 0x31] = MAGIC"
  using text_encode_MAGIC [of rt] by (metis text_codec_ok_def)

lemma text_decode_MAGIC_only:
  assumes "text_codec_ok rt" "text_decode rt bs = MAGIC" "length bs = 3"
  shows "bs = [0x53, 0x53, 0x31]"
proof -
  have "is_ascii (text_decode rt bs) \<and> length (text_decode rt bs) = length bs"
    using assms is_ascii_MAGIC by (simp add: MAGIC_def)
  with assms(1) have "bs = map byte_of_char (text_decode rt bs)"
    unfolding text_codec_ok_def by blast
  then show ?thesis using assms(2) magic_bytes by simp
qed

lemma parseHeader_prefix:
  assumes "parseHeader rt blob = Inr (h, ct)"
  shows "parseHeader rt (take 57 blob @ ct') = Inr (h, ct')"
proof -
  have len: "57 \<le> length blob" using parseHeader_success [OF assms] by simp
  then have "min (length blob) 57 = 57" by simp
  with assms len show ?thesis
    by (auto simp: parseHeader_def HEADER_SIZE_def Let_def getUint8_def slice_def VERSION_def
          nth_append bindE_eq_Inr drop_take split: if_splits option.splits)
qed

section \<open>The reference runtime satisfies the contracts\<close>

lemma char_of_byte_of_char [simp]: "char_of_byte (byte_of_char c) = c"
  by (simp add: char_of_byte_def byte_of_char_def unat_of_nat)

lemma byte_of_char_of_byte [simp]: "byte_of_char (char_of_byte b) = b"
proof -
  have "unat b < 256" using unsigned_less [of b, where ?'a = nat] by simp
  then show ?thesis by (simp add: char_of_byte_def byte_of_char_def)
qed

lemma reference_text_codec_ok: "text_codec_ok reference_runtime"
  by (simp add: text_codec_ok_def reference_runtime_def comp_def)

lemma reference_secretbox_ok: "secretbox_ok reference_runtime"
  by (auto simp: secretbox_ok_def reference_runtime_def ref_secretbox_def ref_secretbox_open_def
        comp_def split: if_splits)

lemma reference_kdf_ok: "kdf_ok reference_runtime"
  by (auto simp: kdf_ok_def reference_runtime_def ref_scrypt_def ref_argon2id_def ref_stretch_def
        split: if_splits)

lemma b64_table_upper: "list_all b64_entry_ok [0, 1, 2, 3, 4, 5, 6, 7, 8, 9, 10, 11, 12, 13, 14, 15 :: nat]"
  by (simp add: b64_entry_ok_def b64_char_def b64_alphabet_def b64_index_def is_white_space_def)

lemma b64_table_lower_1: "list_all b64_entry_ok [16, 17, 18, 19, 20, 21, 22, 23, 24, 25, 26, 27, 28, 29, 30, 31 :: nat]"
  by (simp add: b64_entry_ok_def b64_char_def b64_alphabet_def b64_index_def is_white_space_def)

lemma b64_table_lower_2: "list_all b64_entry_ok [32, 33, 34, 35, 36, 37, 38, 39, 40, 41, 42, 43, 44, 45, 46, 47 :: nat]"
  by (simp add: b64_entry_ok_def b64_char_def b64_alphabet_def b64_index_def is_white_space_def)

lemma b64_table_digits: "list_all b64_entry_ok [48, 49, 50, 51, 52, 53, 54, 55, 56, 57, 58, 59, 60, 61, 62, 63 :: nat]"
  by (simp add: b64_entry_ok_def b64_char_def b64_alphabet_def b64_index_def is_white_space_def)

lemma b64_entry: "i < 64 \<Longrightarrow> b64_entry_ok i"
proof -
  assume "i < 64"
  then consider "i < 16" | "16 \<le> i \<and> i < 32" | "32 \<le> i \<and> i < 48" | "48 \<le> i \<and> i < 64"
    by linarith
  then show ?thesis
  proof cases
    case 1
    then have "i \<in> set [0, 1, 2, 3, 4, 5, 6, 7, 8, 9, 10, 11, 12, 13, 14, 15 :: nat]" by (simp del: One_nat_def) arith
    with b64_table_upper show ?thesis unfolding list_all_iff by blast
  next
    case 2
    then have "i \<in> set [16, 17, 18, 19, 20, 21, 22, 23, 24, 25, 26, 27, 28, 29, 30, 31 :: nat]" by (simp del: One_nat_def) arith
    with b64_table_lower_1 show ?thesis unfolding list_all_iff by blast
  next
    case 3
    then have "i \<in> set [32, 33, 34, 35, 36, 37, 38, 39, 40, 41, 42, 43, 44, 45, 46, 47 :: nat]" by (simp del: One_nat_def) arith
    with b64_table_lower_2 show ?thesis unfolding list_all_iff by blast
  next
    case 4
    then have "i \<in> set [48, 49, 50, 51, 52, 53, 54, 55, 56, 57, 58, 59, 60, 61, 62, 63 :: nat]" by (simp del: One_nat_def) arith
    with b64_table_digits show ?thesis unfolding list_all_iff by blast
  qed
qed

lemma b64_index_char: "i < 64 \<Longrightarrow> b64_index (b64_char i) = i"
  using b64_entry [of i] by (simp add: b64_entry_ok_def)

lemma b64_char_not_pad: "i < 64 \<Longrightarrow> b64_char i \<noteq> CHR ''=''"
  using b64_entry [of i] by (simp add: b64_entry_ok_def)

lemma b64_char_not_space: "i < 64 \<Longrightarrow> \<not> is_white_space (b64_char i)"
  using b64_entry [of i] by (simp add: b64_entry_ok_def)

lemma sextets:
  fixes n :: nat
  shows "n div 262144 * 262144 + n div 4096 mod 64 * 4096 + n div 64 mod 64 * 64 + n mod 64 = n"
proof -
  define a where "a = n div 64"
  define b where "b = a div 64"
  define c where "c = b div 64"
  have b_eq: "n div 4096 = b"
    using div_mult2_eq [of n 64 64] by (simp add: a_def b_def)
  have c_eq: "n div 262144 = c"
    using div_mult2_eq [of n 4096 64] b_eq by (simp add: c_def)
  have 1: "n = n mod 64 + 64 * a" by (simp add: a_def)
  have 2: "a = a mod 64 + 64 * b" by (simp add: b_def)
  have 3: "b = b mod 64 + 64 * c" by (simp add: c_def)
  show ?thesis
    unfolding b_eq c_eq a_def [symmetric]
    using 1 2 3 by linarith
qed

lemma three_bytes:
  fixes A B C :: nat
  assumes "B < 256" "C < 256"
  shows "(A * 65536 + B * 256 + C) div 65536 = A"
    and "(A * 65536 + B * 256 + C) div 256 mod 256 = B"
    and "(A * 65536 + B * 256 + C) mod 256 = C"
proof -
  define n where "n = A * 65536 + B * 256 + C"
  have e: "n = C + 256 * (B + 256 * A)" by (simp add: n_def)
  have m: "n mod 256 = C"
  proof -
    have "(C + 256 * (B + 256 * A)) mod 256 = C mod 256" by (rule mod_mult_self2)
    then show ?thesis using assms(2) by (simp only: e mod_less)
  qed
  have d: "n div 256 = B + 256 * A"
  proof -
    have "(C + 256 * (B + 256 * A)) div 256 = (B + 256 * A) + C div 256"
      by (rule div_mult_self2) simp
    then show ?thesis using assms(2) by (simp only: e div_less add_0_right)
  qed
  have dm: "n div 256 mod 256 = B"
  proof -
    have "(B + 256 * A) mod 256 = B mod 256" by (rule mod_mult_self2)
    then show ?thesis using assms(1) by (simp only: d mod_less)
  qed
  have "n div 65536 = n div 256 div 256"
    using div_mult2_eq [of n 256 256] by simp
  moreover have "(B + 256 * A) div 256 = A + B div 256"
    by (rule div_mult_self2) simp
  ultimately have dd: "n div 65536 = A"
    using assms(1) by (simp only: d div_less add_0_right)
  show "(A * 65536 + B * 256 + C) div 65536 = A"
    and "(A * 65536 + B * 256 + C) div 256 mod 256 = B"
    and "(A * 65536 + B * 256 + C) mod 256 = C"
    using m dm dd unfolding n_def by blast+
qed

lemma unat_byte_less: "unat (a :: byte) < 256"
  using unsigned_less [of a, where ?'a = nat] by simp

lemma decode_quad:
  assumes "n < 16777216"
  shows "b64_index (b64_char (n div 262144)) * 262144
         + b64_index (b64_char (n div 4096 mod 64)) * 4096
         + b64_index (b64_char (n div 64 mod 64)) * 64
         + b64_index (b64_char (n mod 64)) = n"
proof -
  from assms have "n div 262144 < 64" by simp
  then show ?thesis
    using sextets [of n] by (simp add: b64_index_char)
qed

lemma ref_from_base64_blobToBase64: "ref_from_base64 (blobToBase64 bs) = bs"
proof (induction bs rule: blobToBase64.induct)
  case (1 a b c rest)
  define n where "n = unat a * 65536 + unat b * 256 + unat c"
  have lt: "n < 16777216"
    using unat_byte_less [of a] unat_byte_less [of b] unat_byte_less [of c] by (simp add: n_def)
  then have s1: "n div 262144 < 64" by simp
  have by3: "n div 65536 = unat a" "n div 256 mod 256 = unat b" "n mod 256 = unat c"
    unfolding n_def using three_bytes [of "unat b" "unat c" "unat a"] unat_byte_less by auto
  have "ref_from_base64 (blobToBase64 (a # b # c # rest))
          = of_nat (n div 65536) # of_nat (n div 256 mod 256) # of_nat (n mod 256)
              # ref_from_base64 (blobToBase64 rest)"
    using decode_quad [OF lt] s1
    by (simp add: n_def [symmetric] Let_def b64_char_not_pad)
  then show ?case using "1.IH" by (simp add: by3)
next
  case (2 a b)
  define n where "n = unat a * 65536 + unat b * 256"
  have lt: "n < 16777216"
    using unat_byte_less [of a] unat_byte_less [of b] by (simp add: n_def)
  then have s1: "n div 262144 < 64" by simp
  have e: "n = 64 * (unat a * 1024 + unat b * 4)" by (simp add: n_def)
  have z: "n mod 64 = 0" unfolding e by simp
  have by3: "n div 65536 = unat a" "n div 256 mod 256 = unat b"
    unfolding n_def using three_bytes [of "unat b" 0 "unat a"] unat_byte_less by auto
  have "b64_index (b64_char (n div 262144)) * 262144
         + b64_index (b64_char (n div 4096 mod 64)) * 4096
         + b64_index (b64_char (n div 64 mod 64)) * 64 = n"
    using sextets [of n] s1 z by (simp add: b64_index_char)
  then have "ref_from_base64 (blobToBase64 [a, b]) = [of_nat (n div 65536), of_nat (n div 256 mod 256)]"
    using s1 by (simp add: n_def [symmetric] Let_def b64_char_not_pad)
  then show ?case by (simp add: by3)
next
  case (3 a)
  define n where "n = unat a * 65536"
  have lt: "n < 16777216"
    using unat_byte_less [of a] by (simp add: n_def)
  then have s1: "n div 262144 < 64" by simp
  have e: "n = 64 * (64 * (unat a * 16))" by (simp add: n_def)
  have z: "n mod 64 = 0" "n div 64 mod 64 = 0" unfolding e by simp_all
  have by3: "n div 65536 = unat a"
    unfolding n_def by simp
  have "b64_index (b64_char (n div 262144)) * 262144
         + b64_index (b64_char (n div 4096 mod 64)) * 4096 = n"
    using sextets [of n] s1 z by (simp add: b64_index_char)
  then have "ref_from_base64 (blobToBase64 [a]) = [of_nat (n div 65536)]"
    using s1 by (simp add: n_def [symmetric] Let_def b64_char_not_pad)
  then show ?case by (simp add: by3)
next
  case 4
  show ?case by simp
qed

lemma reference_base64_ok: "base64_ok reference_runtime"
  by (simp add: base64_ok_def reference_runtime_def ref_from_base64_blobToBase64)

lemma reference_runtime_ok: "runtime_ok reference_runtime"
  by (simp add: runtime_ok_def reference_text_codec_ok reference_base64_ok
        reference_secretbox_ok reference_kdf_ok)

section \<open>Header round trip and key derivation\<close>

lemma canonical_defaults: "canonical DEFAULT_ARGON2ID" "canonical DEFAULT_SCRYPT" "canonical MOBILE_SCRYPT"
  by (simp_all add: canonical_def in_uint32_def DEFAULT_ARGON2ID_def DEFAULT_SCRYPT_def MOBILE_SCRYPT_def)

lemma serialize_deserialize:
  assumes "canonical c"
  shows "\<exists>ps. serializeKdfParams c = Inr ps \<and> length ps = 12
              \<and> deserializeKdfParams (kdf_id c) ps = Inr c"
proof (cases "kdf_id c")
  case Argon2id
  with assms have "toUint32 (kdf_m c) = kdf_m c" "toUint32 (kdf_t c) = kdf_t c"
    "toUint32 (kdf_p c) = kdf_p c" "kdf_N c = 0" "kdf_r c = 0" "kdf_s_p c = 0" "kdf_keyLen c = 32"
    by (simp_all add: canonical_def in_uint32_def toUint32_def)
  with Argon2id show ?thesis
    by (simp add: serializeKdfParams_Argon2id deserializeKdfParams_u32)
next
  case Scrypt
  with assms have "toUint32 (kdf_N c) = kdf_N c" "toUint32 (kdf_r c) = kdf_r c"
    "toUint32 (kdf_s_p c) = kdf_s_p c" "kdf_m c = 0" "kdf_t c = 0" "kdf_p c = 0" "kdf_keyLen c = 32"
    by (simp_all add: canonical_def in_uint32_def toUint32_def)
  with Scrypt show ?thesis
    by (simp add: serializeKdfParams_Scrypt deserializeKdfParams_u32)
next
  case OtherKdf
  with assms show ?thesis by (simp add: canonical_def)
qed

lemma KDF_NAMES_IDS: "KDF_IDS k = Some i \<Longrightarrow> KDF_NAMES i = Some k"
  by (cases k) (auto simp: KDF_IDS_def KDF_NAMES_def)

lemma header_roundtrip:
  assumes codec: "text_codec_ok rt" and c: "canonical c"
    and salt: "length salt = 16" and nonce: "length nonce = 24"
  shows "\<exists>hdr. createHeader rt c salt nonce = Inr hdr \<and> length hdr = 57 \<and>
           (\<forall>ct. parseHeader rt (hdr @ ct)
              = Inr (\<lparr>hdr_magic = MAGIC, hdr_version = VERSION, hdr_kdfId = kdf_id c,
                      hdr_kdfConfig = c, hdr_salt = salt, hdr_nonce = nonce\<rparr>, ct))"
proof -
  from serialize_deserialize [OF c] obtain ps where
    ps: "serializeKdfParams c = Inr ps" "length ps = 12"
      "deserializeKdfParams (kdf_id c) ps = Inr c" by blast
  from c obtain i where i: "KDF_IDS (kdf_id c) = Some i"
    by (cases "kdf_id c") (auto simp: canonical_def KDF_IDS_def)
  let ?hdr = "[0x53, 0x53, 0x31, 1, of_nat i] @ ps @ salt @ nonce"
  have cr: "createHeader rt c salt nonce = Inr ?hdr"
    by (rule createHeader_layout [OF text_encode_MAGIC [OF codec] i ps(1) salt nonce])
  have "parseHeader rt (?hdr @ ct)
          = Inr (\<lparr>hdr_magic = MAGIC, hdr_version = VERSION, hdr_kdfId = kdf_id c,
                  hdr_kdfConfig = c, hdr_salt = salt, hdr_nonce = nonce\<rparr>, ct)" for ct
    using parseHeader_layout [OF text_decode_MAGIC [OF codec] KDF_NAMES_IDS [OF i] ps(2) salt nonce,
        of ct] ps(3)
    by (simp add: VERSION_def)
  with cr createHeader_length [OF cr] show ?thesis by blast
qed

lemma spread_as_partial [simp]: "spread d (Some (as_partial c)) = c"
  by (simp add: spread_def as_partial_def)

lemma cfg_id_as_partial [simp]: "cfg_id (Some (as_partial c)) = Some (kdf_id c)"
  by (simp add: cfg_id_def as_partial_def)

lemma spread_None [simp]: "spread d None = d"
  by (simp add: spread_def)

lemma cfg_id_None [simp]: "cfg_id None = None"
  by (simp add: cfg_id_def)

lemma MOBILE_SCRYPT_fields [simp]:
  "kdf_id MOBILE_SCRYPT = Scrypt" "kdf_N MOBILE_SCRYPT = 4096" "kdf_r MOBILE_SCRYPT = 8"
  "kdf_s_p MOBILE_SCRYPT = 1" "kdf_keyLen MOBILE_SCRYPT = 32"
  by (simp_all add: MOBILE_SCRYPT_def)

lemma DEFAULT_ARGON2ID_fields [simp]:
  "kdf_id DEFAULT_ARGON2ID = Argon2id" "kdf_m DEFAULT_ARGON2ID = 19456"
  "kdf_t DEFAULT_ARGON2ID = 2" "kdf_p DEFAULT_ARGON2ID = 1" "kdf_keyLen DEFAULT_ARGON2ID = 32"
  by (simp_all add: DEFAULT_ARGON2ID_def)

lemma deriveKey_no_argon2:
  assumes "argon2id rt = None" "cfg_id cfg \<noteq> Some Scrypt"
  shows "deriveKey rt pw salt cfg =
           (case scrypt rt (text_encode rt pw) salt (2 ^ 12) 8 1 32 of
              Inr key \<Rightarrow> Inr (key, MOBILE_SCRYPT)
            | Inl e \<Rightarrow> Inl (KeyDerivationFailed e))"
  using assms
  by (simp add: deriveKey_def Let_def deriveKeyArgon2id_def deriveKeyScrypt_def)

lemma kdf_ok_argon2id_length:
  "kdf_ok rt \<Longrightarrow> argon2id rt = Some f \<Longrightarrow> f pw s p t m l = Inr k \<Longrightarrow> int (length k) = l"
  unfolding kdf_ok_def by blast

lemma kdf_ok_scrypt_length:
  "kdf_ok rt \<Longrightarrow> scrypt rt pw s N r p l = Inr k \<Longrightarrow> int (length k) = l"
  unfolding kdf_ok_def by blast

lemma kdf_ok_scrypt_mobile:
  "kdf_ok rt \<Longrightarrow> \<exists>k. scrypt rt pw s 4096 8 1 32 = Inr k \<and> length k = 32"
proof -
  assume ok: "kdf_ok rt"
  then obtain k where k: "scrypt rt pw s (2 ^ 12) 8 1 32 = Inr k"
    unfolding kdf_ok_def by blast
  with kdf_ok_scrypt_length [OF ok k] show ?thesis by auto
qed

lemma deriveKey_default:
  assumes "kdf_ok rt"
  shows "\<exists>key rc. deriveKey rt pw salt None = Inr (key, rc) \<and> length key = 32
           \<and> (rc = DEFAULT_ARGON2ID \<or> rc = MOBILE_SCRYPT)"
proof (cases "deriveKeyArgon2id rt pw salt DEFAULT_ARGON2ID")
  case (Inr key)
  then obtain f where "argon2id rt = Some f" "f pw salt 1 2 19456 32 = Inr key"
    by (auto simp: deriveKeyArgon2id_def split: option.splits)
  then have "int (length key) = 32"
    by (rule kdf_ok_argon2id_length [OF assms])
  with Inr show ?thesis
    by (simp add: deriveKey_def Let_def)
next
  case (Inl e)
  from kdf_ok_scrypt_mobile [OF assms] obtain key where
    "scrypt rt (text_encode rt pw) salt 4096 8 1 32 = Inr key" "length key = 32" by blast
  with Inl show ?thesis
    by (simp add: deriveKey_def Let_def deriveKeyScrypt_def)
qed

lemma deriveKeyArgon2id_id [simp]:
  "deriveKeyArgon2id rt pw salt (c\<lparr>kdf_id := x\<rparr>) = deriveKeyArgon2id rt pw salt c"
  by (cases "argon2id rt") (simp_all add: deriveKeyArgon2id_def)

lemma deriveKey_again:
  assumes "deriveKey rt pw salt cfg = Inr (key, rc)"
  shows "deriveKey rt pw salt (Some (as_partial rc)) = Inr (key, rc)"
proof (cases "kdf_id (spread DEFAULT_ARGON2ID cfg) = Argon2id \<or> cfg_id cfg = None")
  case True
  show ?thesis
  proof (cases "deriveKeyArgon2id rt pw salt (spread DEFAULT_ARGON2ID cfg)")
    case (Inr k)
    with True assms have rc: "key = k" "rc = (spread DEFAULT_ARGON2ID cfg)\<lparr>kdf_id := Argon2id\<rparr>"
      by (auto simp: deriveKey_def Let_def)
    have "deriveKeyArgon2id rt pw salt rc = Inr k"
      using Inr by (simp add: rc)
    then show ?thesis
      by (simp add: deriveKey_def Let_def rc)
  next
    case (Inl e)
    with True assms have sc: "cfg_id cfg \<noteq> Some Scrypt \<Longrightarrow> rc = MOBILE_SCRYPT"
      "cfg_id cfg = Some Scrypt \<Longrightarrow> rc = spread DEFAULT_SCRYPT cfg"
      and k: "deriveKeyScrypt rt pw salt rc = Inr key"
      by (auto simp: deriveKey_def Let_def split: if_splits sum.splits)
    have "kdf_id rc = Scrypt"
      using sc by (cases "cfg_id cfg = Some Scrypt")
        (auto simp: spread_def cfg_id_def split: option.splits)
    with k show ?thesis
      by (simp add: deriveKey_def Let_def)
  qed
next
  case False
  with assms have sc: "cfg_id cfg \<noteq> Some Scrypt \<Longrightarrow> rc = MOBILE_SCRYPT"
    "cfg_id cfg = Some Scrypt \<Longrightarrow> rc = spread DEFAULT_SCRYPT cfg"
    and k: "deriveKeyScrypt rt pw salt rc = Inr key"
    by (auto simp: deriveKey_def Let_def split: if_splits sum.splits)
  have "kdf_id rc = Scrypt"
    using sc by (cases "cfg_id cfg = Some Scrypt")
      (auto simp: spread_def cfg_id_def split: option.splits)
  with k show ?thesis
    by (simp add: deriveKey_def Let_def)
qed

lemma deriveKey_key_length:
  assumes ok: "kdf_ok rt" and dk: "deriveKey rt pw salt cfg = Inr (key, rc)"
  shows "int (length key) = kdf_keyLen rc"
proof (cases "kdf_id (spread DEFAULT_ARGON2ID cfg) = Argon2id \<or> cfg_id cfg = None")
  case True
  show ?thesis
  proof (cases "deriveKeyArgon2id rt pw salt (spread DEFAULT_ARGON2ID cfg)")
    case (Inr k)
    with True dk have rc: "key = k" "rc = (spread DEFAULT_ARGON2ID cfg)\<lparr>kdf_id := Argon2id\<rparr>"
      by (auto simp: deriveKey_def Let_def)
    from Inr obtain f where "argon2id rt = Some f"
      "f pw salt (kdf_p (spread DEFAULT_ARGON2ID cfg)) (kdf_t (spread DEFAULT_ARGON2ID cfg))
         (kdf_m (spread DEFAULT_ARGON2ID cfg)) (kdf_keyLen (spread DEFAULT_ARGON2ID cfg)) = Inr k"
      by (auto simp: deriveKeyArgon2id_def split: option.splits)
    from kdf_ok_argon2id_length [OF ok this] show ?thesis by (simp add: rc)
  next
    case (Inl e)
    with True dk have "deriveKeyScrypt rt pw salt rc = Inr key"
      by (auto simp: deriveKey_def Let_def split: if_splits sum.splits)
    then show ?thesis
      unfolding deriveKeyScrypt_def by (rule kdf_ok_scrypt_length [OF ok])
  qed
next
  case False
  with dk have "deriveKeyScrypt rt pw salt rc = Inr key"
    by (auto simp: deriveKey_def Let_def split: if_splits sum.splits)
  then show ?thesis
    unfolding deriveKeyScrypt_def by (rule kdf_ok_scrypt_length [OF ok])
qed

lemma seal_open:
  assumes "secretbox_ok rt" "length k = 32" "length n = 24"
  shows "\<exists>c. secretbox rt m n k = Inr (Some c) \<and> length c = length m + 16
             \<and> secretbox_open rt c n k = Inr (Some m)"
proof -
  from assms obtain c where c: "secretbox rt m n k = Inr (Some c)"
    "secretbox_open rt c n k = Inr (Some m)"
    unfolding secretbox_ok_def by blast
  moreover from assms(1) c(1) have "length c = length m + 16"
    unfolding secretbox_ok_def by blast
  ultimately show ?thesis by blast
qed

lemma roundtrip_canonical:
  assumes ok: "runtime_ok rt" and salt: "length salt = 16" and nonce: "length nonce = 24"
    and dk: "deriveKey rt pw salt cfg = Inr (key, rc)" and can: "canonical rc"
  shows "\<exists>hdr box. encryptV2 rt salt nonce p pw cfg = Inr (blobToBase64 (hdr @ box))
           \<and> length hdr = 57 \<and> length box = length (text_encode rt p) + 16
           \<and> parseHeader rt (hdr @ box)
               = Inr (\<lparr>hdr_magic = MAGIC, hdr_version = VERSION, hdr_kdfId = kdf_id rc,
                       hdr_kdfConfig = rc, hdr_salt = salt, hdr_nonce = nonce\<rparr>, box)
           \<and> decryptV2 rt (blobToBase64 (hdr @ box)) pw = Inr p"
proof -
  from ok have codec: "text_codec_ok rt" and b64: "base64_ok rt" and sb: "secretbox_ok rt"
    and kdf: "kdf_ok rt" by (simp_all add: runtime_ok_def)
  have "int (length key) = 32"
    using deriveKey_key_length [OF kdf dk] can by (simp add: canonical_def)
  then have klen: "length key = 32" by simp
  from seal_open [OF sb klen nonce, of "text_encode rt p"] obtain box where
    box: "secretbox rt (text_encode rt p) nonce key = Inr (Some box)"
      "length box = length (text_encode rt p) + 16"
      "secretbox_open rt box nonce key = Inr (Some (text_encode rt p))" by blast
  from header_roundtrip [OF codec can salt nonce] obtain hdr where
    hdr: "createHeader rt rc salt nonce = Inr hdr" "length hdr = 57"
      "\<And>ct. parseHeader rt (hdr @ ct)
              = Inr (\<lparr>hdr_magic = MAGIC, hdr_version = VERSION, hdr_kdfId = kdf_id rc,
                      hdr_kdfConfig = rc, hdr_salt = salt, hdr_nonce = nonce\<rparr>, ct)" by blast
  have enc: "encryptV2 rt salt nonce p pw cfg = Inr (blobToBase64 (hdr @ box))"
    by (simp add: encryptV2_def dk box(1) hdr(1) createBlob_append)
  have blob: "base64ToBlob rt (blobToBase64 (hdr @ box)) = hdr @ box"
    using b64 by (simp add: base64ToBlob_def base64_ok_def)
  have rtt: "text_decode rt (text_encode rt p) = p"
    using codec by (simp add: text_codec_ok_def)
  have dec: "decryptV2 rt (blobToBase64 (hdr @ box)) pw = Inr p"
    by (simp add: decryptV2_def blob hdr(3) deriveKey_again [OF dk] box(3) rtt)
  from enc hdr(2) box(2) hdr(3) [of box] dec show ?thesis by blast
qed

section \<open>Encryption and decryption, step by step\<close>

lemma length_blobToBase64: "length (blobToBase64 bs) = 4 * ((length bs + 2) div 3)"
proof (induction bs rule: blobToBase64.induct)
  case (1 a b c rest)
  have "(length (a # b # c # rest) + 2) div 3 = Suc ((length rest + 2) div 3)"
    by simp
  with 1 show ?case by (simp add: Let_def)
qed (simp_all add: Let_def)

lemma encryptV2_success:
  assumes "encryptV2 rt salt nonce p pw cfg = Inr b64"
  shows "\<exists>key rc box hdr. deriveKey rt pw salt cfg = Inr (key, rc)
           \<and> secretbox rt (text_encode rt p) nonce key = Inr (Some box)
           \<and> createHeader rt rc salt nonce = Inr hdr
           \<and> b64 = blobToBase64 (hdr @ box)"
  using assms
  by (auto simp: encryptV2_def bindE_eq_Inr Let_def createBlob_append split: option.splits)

lemma secretbox_ok_length:
  "secretbox_ok rt \<Longrightarrow> secretbox rt m n k = Inr (Some c) \<Longrightarrow> length c = length m + 16"
  unfolding secretbox_ok_def by blast

lemma secretbox_ok_short:
  "secretbox_ok rt \<Longrightarrow> length c < 16 \<Longrightarrow> secretbox_open rt c n k \<noteq> Inr (Some m)"
  unfolding secretbox_ok_def by blast

lemma encryptV2_blob_length:
  assumes sb: "secretbox_ok rt" and e: "encryptV2 rt salt nonce p pw cfg = Inr b64"
  shows "\<exists>blob. b64 = blobToBase64 blob \<and> length blob = 57 + length (text_encode rt p) + 16"
proof -
  from encryptV2_success [OF e] obtain key rc box hdr where
    "secretbox rt (text_encode rt p) nonce key = Inr (Some box)"
    "createHeader rt rc salt nonce = Inr hdr" "b64 = blobToBase64 (hdr @ box)" by blast
  with secretbox_ok_length [OF sb] createHeader_length show ?thesis
    by (intro exI [of _ "hdr @ box"]) auto
qed

lemma decryptV2_unfold:
  "parseHeader rt (base64ToBlob rt b64) = Inr (h, ct) \<Longrightarrow>
   deriveKey rt pw (hdr_salt h) (Some (as_partial (hdr_kdfConfig h))) = Inr (key, rc) \<Longrightarrow>
   decryptV2 rt b64 pw =
     (case secretbox_open rt ct (hdr_nonce h) key of
        Inl e \<Rightarrow> Inl e
      | Inr None \<Rightarrow> Inl IncorrectPasswordOrCorrupted
      | Inr (Some plain) \<Rightarrow> Inr (text_decode rt plain))"
  by (simp add: decryptV2_def bindE_def split: sum.splits option.splits)

lemma decryptV2_success:
  assumes "decryptV2 rt b64 pw = Inr p"
  shows "\<exists>h ct key rc plain. parseHeader rt (base64ToBlob rt b64) = Inr (h, ct)
           \<and> deriveKey rt pw (hdr_salt h) (Some (as_partial (hdr_kdfConfig h))) = Inr (key, rc)
           \<and> secretbox_open rt ct (hdr_nonce h) key = Inr (Some plain)
           \<and> p = text_decode rt plain"
  using assms
  by (auto simp: decryptV2_def bindE_eq_Inr Let_def split: option.splits)

lemma pad_not_space: "\<not> is_white_space (CHR ''='')"
  by (simp add: is_white_space_def)

lemma blobToBase64_no_space: "c \<in> set (blobToBase64 bs) \<Longrightarrow> \<not> is_white_space c"
proof (induction bs arbitrary: c rule: blobToBase64.induct)
  case (1 a b d rest)
  define n where "n = unat a * 65536 + unat b * 256 + unat d"
  have lt: "n < 16777216"
    using unat_byte_less [of a] unat_byte_less [of b] unat_byte_less [of d] by (simp add: n_def)
  then have s1: "n div 262144 < 64" by simp
  from "1.prems" have "c = b64_char (n div 262144) \<or> c = b64_char (n div 4096 mod 64)
      \<or> c = b64_char (n div 64 mod 64) \<or> c = b64_char (n mod 64) \<or> c \<in> set (blobToBase64 rest)"
    by (auto simp: Let_def n_def)
  with s1 "1.IH" show ?case
    using b64_char_not_space by (auto simp del: blobToBase64.simps)
next
  case (2 a b)
  define n where "n = unat a * 65536 + unat b * 256"
  have lt: "n < 16777216"
    using unat_byte_less [of a] unat_byte_less [of b] by (simp add: n_def)
  then have s1: "n div 262144 < 64" by simp
  from "2.prems" have "c = b64_char (n div 262144) \<or> c = b64_char (n div 4096 mod 64)
      \<or> c = b64_char (n div 64 mod 64) \<or> c = CHR ''=''"
    by (auto simp: Let_def n_def)
  with s1 show ?case using b64_char_not_space pad_not_space by auto
next
  case (3 a)
  define n where "n = unat a * 65536"
  have lt: "n < 16777216" using unat_byte_less [of a] by (simp add: n_def)
  then have s1: "n div 262144 < 64" by simp
  from "3.prems" have "c = b64_char (n div 262144) \<or> c = b64_char (n div 4096 mod 64)
      \<or> c = CHR ''=''"
    by (auto simp: Let_def n_def)
  with s1 show ?case using b64_char_not_space pad_not_space by auto
next
  case 4
  then show ?case by simp
qed

lemma dropWhile_none: "(\<And>c. c \<in> set s \<Longrightarrow> \<not> P c) \<Longrightarrow> dropWhile P s = s"
  by (cases s) auto

lemma trim_blobToBase64 [simp]: "trim (blobToBase64 bs) = blobToBase64 bs"
proof -
  have 1: "dropWhile is_white_space (blobToBase64 bs) = blobToBase64 bs"
    by (rule dropWhile_none) (rule blobToBase64_no_space)
  have 2: "dropWhile is_white_space (rev (blobToBase64 bs)) = rev (blobToBase64 bs)"
    by (rule dropWhile_none) (simp add: blobToBase64_no_space)
  show ?thesis by (simp add: trim_def 1 2)
qed


section \<open>The step-wise reveal\<close>







section \<open>Facts about the sample inputs and the layers\<close>

lemma scrypt_only_runtime_ok: "runtime_ok scrypt_only_runtime"
  using reference_runtime_ok
  by (simp add: scrypt_only_runtime_def runtime_ok_def text_codec_ok_def base64_ok_def
        secretbox_ok_def kdf_ok_def)

lemma sample_lengths [simp]: "length sample_salt = 16" "length sample_nonce = 24"
  by (simp_all add: sample_salt_def sample_nonce_def)

lemma serializeKdfParams_keyLen [simp]:
  "serializeKdfParams (c\<lparr>kdf_keyLen := l\<rparr>) = serializeKdfParams c"
  by (cases "kdf_id c") (simp_all add: serializeKdfParams_def Let_def)

lemma createHeader_keyLen [simp]:
  "createHeader rt (c\<lparr>kdf_keyLen := l\<rparr>) salt nonce = createHeader rt c salt nonce"
  unfolding createHeader_def serializeKdfParams_keyLen by simp

lemma reference_base64ToBlob [simp]: "base64ToBlob reference_runtime (blobToBase64 bs) = bs"
  by (simp add: base64ToBlob_def reference_runtime_def ref_from_base64_blobToBase64)

lemma reference_text_encode [simp]: "text_encode reference_runtime s = map byte_of_char s"
  by (simp add: reference_runtime_def)

lemma draw_lengths [simp]:
  "length (fst draw1) = 16" "length (snd draw1) = 24"
  "length (fst draw2) = 16" "length (snd draw2) = 24"
  "length (fst draw3) = 16" "length (snd draw3) = 24"
  by (simp_all add: draw1_def draw2_def draw3_def)



section \<open>The claims\<close>






text \<open>
  C3, as stated, fails: a configuration with a 64-byte key is a well-typed \<open>KdfConfig\<close>
  with a known KDF, and the header made from it parses to the defaults with key length 32.
\<close>

theorem header_round_trip_counterexample:
  "header_round_trip reference_runtime long_key_config sample_salt sample_nonce
     = Inr (\<lparr>hdr_magic = MAGIC, hdr_version = VERSION, hdr_kdfId = Argon2id,
             hdr_kdfConfig = DEFAULT_ARGON2ID, hdr_salt = sample_salt,
             hdr_nonce = sample_nonce\<rparr>, [])
   \<and> kdf_id long_key_config = Argon2id
   \<and> DEFAULT_ARGON2ID \<noteq> long_key_config"
proof -
  from header_roundtrip [OF reference_text_codec_ok canonical_defaults(1), of sample_salt sample_nonce]
  obtain hdr where
    hdr: "createHeader reference_runtime DEFAULT_ARGON2ID sample_salt sample_nonce = Inr hdr"
    and ph: "\<And>ct. parseHeader reference_runtime (hdr @ ct)
        = Inr (\<lparr>hdr_magic = MAGIC, hdr_version = VERSION, hdr_kdfId = kdf_id DEFAULT_ARGON2ID,
                hdr_kdfConfig = DEFAULT_ARGON2ID, hdr_salt = sample_salt,
                hdr_nonce = sample_nonce\<rparr>, ct)"
    using sample_lengths by blast
  have "DEFAULT_ARGON2ID \<noteq> long_key_config"
  proof
    assume "DEFAULT_ARGON2ID = long_key_config"
    then have "kdf_keyLen DEFAULT_ARGON2ID = kdf_keyLen long_key_config" by (rule arg_cong)
    then show False by (simp add: long_key_config_def)
  qed
  then show ?thesis
    using hdr ph [of "[]"] by (simp add: header_round_trip_def long_key_config_def)
qed

text \<open>
  C3, amended. For every canonical configuration (known KDF, key length 32, the active
  variant's three parameters in the unsigned 32-bit range, zero in the other variant's
  fields), every 16-byte salt and every 24-byte nonce, parsing the created header returns
  exactly the configuration, the salt and the nonce, with no ciphertext left over; and
  \<open>deserializeKdfParams\<close> inverts \<open>serializeKdfParams\<close> on such a configuration.
\<close>

theorem header_round_trip_canonical:
  assumes codec: "text_codec_ok rt" and can: "canonical cfg"
    and salt: "length salt = 16" and nonce: "length nonce = 24"
  shows "header_round_trip rt cfg salt nonce
           = Inr (\<lparr>hdr_magic = MAGIC, hdr_version = VERSION, hdr_kdfId = kdf_id cfg,
                   hdr_kdfConfig = cfg, hdr_salt = salt, hdr_nonce = nonce\<rparr>, [])
         \<and> (\<exists>ps. serializeKdfParams cfg = Inr ps
                  \<and> deserializeKdfParams (kdf_id cfg) ps = Inr cfg)"
proof -
  from header_roundtrip [OF codec can salt nonce] obtain hdr where
    hdr: "createHeader rt cfg salt nonce = Inr hdr"
    and ph: "\<And>ct. parseHeader rt (hdr @ ct)
        = Inr (\<lparr>hdr_magic = MAGIC, hdr_version = VERSION, hdr_kdfId = kdf_id cfg,
                hdr_kdfConfig = cfg, hdr_salt = salt, hdr_nonce = nonce\<rparr>, ct)"
    by blast
  have "header_round_trip rt cfg salt nonce
           = Inr (\<lparr>hdr_magic = MAGIC, hdr_version = VERSION, hdr_kdfId = kdf_id cfg,
                   hdr_kdfConfig = cfg, hdr_salt = salt, hdr_nonce = nonce\<rparr>, [])"
    using hdr ph [of "[]"] by (simp add: header_round_trip_def)
  moreover from serialize_deserialize [OF can]
  have "\<exists>ps. serializeKdfParams cfg = Inr ps \<and> deserializeKdfParams (kdf_id cfg) ps = Inr cfg"
    by blast
  ultimately show ?thesis by blast
qed

theorem header_round_trip_canonical_witness:
  "header_round_trip reference_runtime MOBILE_SCRYPT sample_salt sample_nonce
     = Inr (\<lparr>hdr_magic = MAGIC, hdr_version = VERSION, hdr_kdfId = Scrypt,
             hdr_kdfConfig = MOBILE_SCRYPT, hdr_salt = sample_salt,
             hdr_nonce = sample_nonce\<rparr>, [])"
  using header_round_trip_canonical [OF reference_text_codec_ok canonical_defaults(3),
      of sample_salt sample_nonce]
  by simp

text \<open>
  C4. When the Argon2id capability is unavailable and the request does not name scrypt,
  \<open>deriveKey\<close> calls scrypt with \<open>N = 4096\<close>, \<open>r = 8\<close>, \<open>p = 1\<close> and key length 32 whatever
  the request asked for, fails only if that call fails, and reports \<open>MOBILE_SCRYPT\<close> as the
  resolved configuration. A blob encrypted in that state records scrypt with those
  parameters in its header and decrypts in the same state, where Argon2id is unavailable.
\<close>

theorem deriveKey_scrypt_fallback:
  assumes na: "argon2id rt = None" and req: "cfg_id cfg \<noteq> Some Scrypt"
  shows "deriveKey rt pw salt cfg =
           (case scrypt rt (text_encode rt pw) salt 4096 8 1 32 of
              Inr key \<Rightarrow> Inr (key, MOBILE_SCRYPT)
            | Inl e \<Rightarrow> Inl (KeyDerivationFailed e))
         \<and> MOBILE_SCRYPT = \<lparr>kdf_id = Scrypt, kdf_m = 0, kdf_t = 0, kdf_p = 0,
              kdf_N = 4096, kdf_r = 8, kdf_s_p = 1, kdf_keyLen = 32\<rparr>
         \<and> (runtime_ok rt \<and> length salt = SALT_LEN \<and> length nonce = NONCE_LEN \<longrightarrow>
              (\<exists>b64. encryptV2 rt salt nonce p pw cfg = Inr b64
                 \<and> getKdfInfo rt b64 = Some (Scrypt, MOBILE_SCRYPT)
                 \<and> decryptV2 rt b64 pw = Inr p))"
proof -
  have dk: "deriveKey rt pw salt cfg =
           (case scrypt rt (text_encode rt pw) salt 4096 8 1 32 of
              Inr key \<Rightarrow> Inr (key, MOBILE_SCRYPT)
            | Inl e \<Rightarrow> Inl (KeyDerivationFailed e))"
    using deriveKey_no_argon2 [OF na req] by simp
  have ms: "MOBILE_SCRYPT = \<lparr>kdf_id = Scrypt, kdf_m = 0, kdf_t = 0, kdf_p = 0,
              kdf_N = 4096, kdf_r = 8, kdf_s_p = 1, kdf_keyLen = 32\<rparr>"
    by (simp add: MOBILE_SCRYPT_def)
  have "\<exists>b64. encryptV2 rt salt nonce p pw cfg = Inr b64
                 \<and> getKdfInfo rt b64 = Some (Scrypt, MOBILE_SCRYPT)
                 \<and> decryptV2 rt b64 pw = Inr p"
    if ok: "runtime_ok rt" and salt: "length salt = SALT_LEN" and nonce: "length nonce = NONCE_LEN"
  proof -
    from ok have kdf: "kdf_ok rt" and b64: "base64_ok rt" by (simp_all add: runtime_ok_def)
    from kdf_ok_scrypt_mobile [OF kdf] obtain key where
      "scrypt rt (text_encode rt pw) salt 4096 8 1 32 = Inr key" by blast
    with dk have d: "deriveKey rt pw salt cfg = Inr (key, MOBILE_SCRYPT)" by simp
    from salt nonce have "length salt = 16" "length nonce = 24"
      by (simp_all add: SALT_LEN_def NONCE_LEN_def)
    from roundtrip_canonical [OF ok this d canonical_defaults(3), of p]
    obtain hdr box where
      e: "encryptV2 rt salt nonce p pw cfg = Inr (blobToBase64 (hdr @ box))"
      and ph: "parseHeader rt (hdr @ box)
               = Inr (\<lparr>hdr_magic = MAGIC, hdr_version = VERSION, hdr_kdfId = kdf_id MOBILE_SCRYPT,
                       hdr_kdfConfig = MOBILE_SCRYPT, hdr_salt = salt, hdr_nonce = nonce\<rparr>, box)"
      and de: "decryptV2 rt (blobToBase64 (hdr @ box)) pw = Inr p" by blast
    have "getKdfInfo rt (blobToBase64 (hdr @ box)) = Some (Scrypt, MOBILE_SCRYPT)"
      using b64 ph by (simp add: getKdfInfo_def base64ToBlob_def base64_ok_def)
    with e de show ?thesis by blast
  qed
  with dk ms show ?thesis by blast
qed

theorem deriveKey_scrypt_fallback_witness:
  "deriveKey scrypt_only_runtime ''Tr0ub4dor&3'' sample_salt (Some heavy_request)
     = Inr (ref_stretch (map byte_of_char ''Tr0ub4dor&3'') sample_salt 4096 32, MOBILE_SCRYPT)
   \<and> (\<exists>b64. encryptV2 scrypt_only_runtime sample_salt sample_nonce ''hello world''
                ''Tr0ub4dor&3'' (Some heavy_request) = Inr b64
          \<and> getKdfInfo scrypt_only_runtime b64 = Some (Scrypt, MOBILE_SCRYPT)
          \<and> decryptV2 scrypt_only_runtime b64 ''Tr0ub4dor&3'' = Inr ''hello world'')"
  using deriveKey_scrypt_fallback [of scrypt_only_runtime "Some heavy_request" "''Tr0ub4dor&3''"
      sample_salt sample_nonce "''hello world''"] scrypt_only_runtime_ok
  by (simp add: scrypt_only_runtime_def reference_runtime_def cfg_id_def heavy_request_def
        ref_scrypt_def SALT_LEN_def NONCE_LEN_def)

text \<open>
  C5. \<open>parseHeader\<close> fails on every blob shorter than 57 bytes, on every blob whose first
  three bytes are not the ASCII codes of \<open>SS1\<close>, on every blob whose version byte is not 1
  and on every blob whose KDF id byte is neither 1 nor 2; on a blob of at least 57 bytes
  the first failing check, in the order magic, version, KDF id, names the error. On
  success the ciphertext is everything after the 57 header bytes, and any bytes at all
  (none included) may follow the same header.
\<close>

theorem parseHeader_rejects_malformed:
  assumes codec: "text_codec_ok rt"
  shows "(length blob < 57 \<longrightarrow> parseHeader rt blob = Inl BlobTooShort)
       \<and> (take 3 blob \<noteq> [0x53, 0x53, 0x31] \<longrightarrow> isl (parseHeader rt blob))
       \<and> (blob ! 3 \<noteq> 1 \<longrightarrow> isl (parseHeader rt blob))
       \<and> (blob ! 4 \<noteq> 1 \<and> blob ! 4 \<noteq> 2 \<longrightarrow> isl (parseHeader rt blob))
       \<and> (57 \<le> length blob \<and> take 3 blob \<noteq> [0x53, 0x53, 0x31] \<longrightarrow>
            parseHeader rt blob = Inl (InvalidMagic (text_decode rt (take 3 blob))))
       \<and> (57 \<le> length blob \<and> take 3 blob = [0x53, 0x53, 0x31] \<and> blob ! 3 \<noteq> 1 \<longrightarrow>
            parseHeader rt blob = Inl (UnsupportedVersion (unat (blob ! 3))))
       \<and> (57 \<le> length blob \<and> take 3 blob = [0x53, 0x53, 0x31] \<and> blob ! 3 = 1
            \<and> blob ! 4 \<noteq> 1 \<and> blob ! 4 \<noteq> 2 \<longrightarrow>
            parseHeader rt blob = Inl (UnknownKdfByte (unat (blob ! 4))))
       \<and> (parseHeader rt blob = Inr (h, ct) \<longrightarrow>
            ct = drop 57 blob \<and> blob = take 57 blob @ ct
            \<and> (\<forall>ct'. parseHeader rt (take 57 blob @ ct') = Inr (h, ct')))"
proof -
  have ok: "57 \<le> length blob \<and> take 3 blob = [0x53, 0x53, 0x31] \<and> blob ! 3 = 1
            \<and> (blob ! 4 = 1 \<or> blob ! 4 = 2)"
    if p: "parseHeader rt blob = Inr (h', ct')" for h' ct'
  proof -
    from parseHeader_success [OF p] have len: "57 \<le> length blob"
      and m: "text_decode rt (take 3 blob) = MAGIC" and v: "unat (blob ! 3) = 1"
      and k: "KDF_NAMES (unat (blob ! 4)) = Some (hdr_kdfId h')" by simp_all
    from len have "length (take 3 blob) = 3" by simp
    from text_decode_MAGIC_only [OF codec m this] have "take 3 blob = [0x53, 0x53, 0x31]" .
    moreover from v have "blob ! 3 = 1" by (simp add: word_unat_eq_iff)
    moreover from k have "unat (blob ! 4) = 1 \<or> unat (blob ! 4) = 2"
      by (auto simp: KDF_NAMES_def split: if_splits)
    then have "blob ! 4 = 1 \<or> blob ! 4 = 2" by (auto simp: word_unat_eq_iff)
    ultimately show ?thesis using len by blast
  qed
  have fails: "isl (parseHeader rt blob)"
    if "take 3 blob \<noteq> [0x53, 0x53, 0x31] \<or> blob ! 3 \<noteq> 1 \<or> (blob ! 4 \<noteq> 1 \<and> blob ! 4 \<noteq> 2)"
  proof (cases "parseHeader rt blob")
    case (Inl e)
    then show ?thesis by simp
  next
    case (Inr r)
    with ok [of "fst r" "snd r"] that show ?thesis by auto
  qed
  have magic: "parseHeader rt blob = Inl (InvalidMagic (text_decode rt (take 3 blob)))"
    if len: "57 \<le> length blob" and m: "take 3 blob \<noteq> [0x53, 0x53, 0x31]"
  proof -
    from len have "length (take 3 blob) = 3" by simp
    with text_decode_MAGIC_only [OF codec] m have "text_decode rt (take 3 blob) \<noteq> MAGIC" by blast
    with len show ?thesis by (simp add: parseHeader_def HEADER_SIZE_def slice_def Let_def)
  qed
  have dec: "text_decode rt (take 3 blob) = MAGIC" if "take 3 blob = [0x53, 0x53, 0x31]"
    using text_decode_MAGIC [OF codec] that by simp
  have version: "parseHeader rt blob = Inl (UnsupportedVersion (unat (blob ! 3)))"
    if len: "57 \<le> length blob" and m: "take 3 blob = [0x53, 0x53, 0x31]" and v: "blob ! 3 \<noteq> 1"
  proof -
    from v have "unat (blob ! 3) \<noteq> 1" by (simp add: word_unat_eq_iff)
    with len dec [OF m] show ?thesis
      by (simp add: parseHeader_def HEADER_SIZE_def slice_def Let_def getUint8_def VERSION_def)
  qed
  have kdf: "parseHeader rt blob = Inl (UnknownKdfByte (unat (blob ! 4)))"
    if len: "57 \<le> length blob" and m: "take 3 blob = [0x53, 0x53, 0x31]" and v: "blob ! 3 = 1"
      and k: "blob ! 4 \<noteq> 1" "blob ! 4 \<noteq> 2"
  proof -
    from k have "unat (blob ! 4) \<noteq> 1" "unat (blob ! 4) \<noteq> 2" by (simp_all add: word_unat_eq_iff)
    with len dec [OF m] v show ?thesis
      by (simp add: parseHeader_def HEADER_SIZE_def slice_def Let_def getUint8_def VERSION_def
            KDF_NAMES_def)
  qed
  have rest: "ct = drop 57 blob \<and> blob = take 57 blob @ ct
            \<and> (\<forall>ct'. parseHeader rt (take 57 blob @ ct') = Inr (h, ct'))"
    if p: "parseHeader rt blob = Inr (h, ct)"
    using parseHeader_success [OF p] parseHeader_prefix [OF p] by simp
  from parseHeader_too_short [of blob rt] fails magic version kdf rest show ?thesis by blast
qed

theorem parseHeader_rejects_malformed_witness:
  "parseHeader reference_runtime [] = Inl BlobTooShort
   \<and> isl (parseHeader reference_runtime (replicate 57 0))
   \<and> parseHeader reference_runtime version2_blob = Inl (UnsupportedVersion 2)
   \<and> parseHeader reference_runtime unknown_kdf_blob = Inl (UnknownKdfByte 3)
   \<and> (\<exists>hdr h. createHeader reference_runtime MOBILE_SCRYPT sample_salt sample_nonce = Inr hdr
          \<and> parseHeader reference_runtime hdr = Inr (h, [])
          \<and> parseHeader reference_runtime (take 57 hdr @ [1, 2, 3]) = Inr (h, [1, 2, 3]))"
proof -
  note t = parseHeader_rejects_malformed [OF reference_text_codec_ok]
  have 1: "parseHeader reference_runtime [] = Inl BlobTooShort"
    using t [of "[]"] by simp
  have 2: "isl (parseHeader reference_runtime (replicate 57 0))"
    using t [of "replicate 57 0"] by simp
  have 3: "parseHeader reference_runtime version2_blob = Inl (UnsupportedVersion 2)"
    using t [of version2_blob] by (simp add: version2_blob_def)
  have 4: "parseHeader reference_runtime unknown_kdf_blob = Inl (UnknownKdfByte 3)"
    using t [of unknown_kdf_blob] by (simp add: unknown_kdf_blob_def)
  let ?h = "\<lparr>hdr_magic = MAGIC, hdr_version = VERSION, hdr_kdfId = kdf_id MOBILE_SCRYPT,
              hdr_kdfConfig = MOBILE_SCRYPT, hdr_salt = sample_salt, hdr_nonce = sample_nonce\<rparr>"
  from header_roundtrip [OF reference_text_codec_ok canonical_defaults(3), of sample_salt sample_nonce]
  obtain hdr where
    hdr: "createHeader reference_runtime MOBILE_SCRYPT sample_salt sample_nonce = Inr hdr"
    and ph: "\<And>ct. parseHeader reference_runtime (hdr @ ct) = Inr (?h, ct)"
    using sample_lengths by blast
  from ph [of "[]"] have p: "parseHeader reference_runtime hdr = Inr (?h, [])" by simp
  with t [of hdr ?h "[]"]
  have "parseHeader reference_runtime (take 57 hdr @ [1, 2, 3]) = Inr (?h, [1, 2, 3])" by blast
  with hdr p have 5: "\<exists>hdr h. createHeader reference_runtime MOBILE_SCRYPT sample_salt sample_nonce = Inr hdr
          \<and> parseHeader reference_runtime hdr = Inr (h, [])
          \<and> parseHeader reference_runtime (take 57 hdr @ [1, 2, 3]) = Inr (h, [1, 2, 3])"
    by blast
  from 1 2 3 4 5 show ?thesis by blast
qed

text \<open>
  C6. \<open>decryptAuto\<close> returns what \<open>decryptV2\<close> returns when that succeeds. When \<open>decryptV2\<close>
  fails, with whatever error (a header that does not parse and a box that does not open
  are two of them), it returns what the legacy \<open>decryptFromBase64\<close> returns when that
  succeeds, and otherwise fails with the one error \<open>DecryptionFailed\<close>: no other error
  ever leaves \<open>decryptAuto\<close>.
\<close>

theorem decryptAuto_unified_failure:
  "(decryptV2 rt enc pw = Inr p \<longrightarrow> decryptAuto rt enc pw = Inr p)
   \<and> (decryptV2 rt enc pw = Inl e \<longrightarrow>
        decryptAuto rt enc pw =
          (case decryptFromBase64 rt enc pw of
             Inr plain \<Rightarrow> Inr plain
           | Inl legacyError \<Rightarrow> Inl DecryptionFailed))
   \<and> (parseHeader rt (base64ToBlob rt enc) = Inl e \<longrightarrow> decryptV2 rt enc pw = Inl e)
   \<and> (parseHeader rt (base64ToBlob rt enc) = Inr (h, ct)
        \<and> deriveKey rt pw (hdr_salt h) (Some (as_partial (hdr_kdfConfig h))) = Inr (key, rc)
        \<and> secretbox_open rt ct (hdr_nonce h) key = Inr None \<longrightarrow>
        decryptV2 rt enc pw = Inl IncorrectPasswordOrCorrupted)
   \<and> (decryptAuto rt enc pw = Inl e' \<longrightarrow> e' = DecryptionFailed)"
proof -
  have 1: "decryptAuto rt enc pw = Inr p" if "decryptV2 rt enc pw = Inr p"
    using that by (simp add: decryptAuto_def)
  have 2: "decryptAuto rt enc pw =
          (case decryptFromBase64 rt enc pw of
             Inr plain \<Rightarrow> Inr plain
           | Inl legacyError \<Rightarrow> Inl DecryptionFailed)" if "decryptV2 rt enc pw = Inl e"
    using that by (simp add: decryptAuto_def)
  have 3: "decryptV2 rt enc pw = Inl e" if "parseHeader rt (base64ToBlob rt enc) = Inl e"
    using that by (simp add: decryptV2_def)
  have 4: "decryptV2 rt enc pw = Inl IncorrectPasswordOrCorrupted"
    if "parseHeader rt (base64ToBlob rt enc) = Inr (h, ct)"
      "deriveKey rt pw (hdr_salt h) (Some (as_partial (hdr_kdfConfig h))) = Inr (key, rc)"
      "secretbox_open rt ct (hdr_nonce h) key = Inr None"
    using decryptV2_unfold [OF that(1) that(2)] that(3) by simp
  have 5: "e' = DecryptionFailed" if "decryptAuto rt enc pw = Inl e'"
    using that by (auto simp: decryptAuto_def split: sum.splits)
  from 1 2 3 4 5 show ?thesis by blast
qed

theorem decryptAuto_unified_failure_witness:
  "decryptV2 reference_runtime [] ''pw'' = Inl BlobTooShort
   \<and> decryptFromBase64 reference_runtime [] ''pw'' = Inl LegacyTooShort
   \<and> decryptAuto reference_runtime [] ''pw'' = Inl DecryptionFailed"
proof -
  have b: "base64ToBlob reference_runtime [] = []"
    by (simp add: base64ToBlob_def reference_runtime_def)
  have p: "parseHeader reference_runtime (base64ToBlob reference_runtime []) = Inl BlobTooShort"
    unfolding b by (rule parseHeader_too_short) simp
  have l: "decryptFromBase64 reference_runtime [] ''pw'' = Inl LegacyTooShort"
    by (simp add: decryptFromBase64_def reference_runtime_def)
  note t = decryptAuto_unified_failure [where rt = reference_runtime and enc = "[]"
      and pw = "''pw''" and e = BlobTooShort]
  from t p have v: "decryptV2 reference_runtime [] ''pw'' = Inl BlobTooShort" by blast
  with t l have "decryptAuto reference_runtime [] ''pw'' = Inl DecryptionFailed" by simp
  with v l show ?thesis by blast
qed

text \<open>
  C7. A blob that \<open>encryptV2\<close> produces is the base64 text of at least 73 bytes: a 57-byte
  header and the box, 16 bytes longer than the encoded plaintext. \<open>decryptV2\<close> returns no
  plaintext for an input that decodes to fewer than 73 bytes: under 57 bytes the header
  is refused as too short; from 57 to 72 bytes, if the header parses and the key is
  derived, fewer than 16 bytes are left for the box and the failure is that of the open
  step (the library's exception, or the incorrect-password error for its null).
\<close>

theorem short_blobs_never_decrypt:
  assumes sb: "secretbox_ok rt"
  shows "(encryptV2 rt salt nonce p pw cfg = Inr enc \<longrightarrow>
            (\<exists>blob. enc = blobToBase64 blob \<and> 73 \<le> length blob
               \<and> length blob = 57 + length (text_encode rt p) + 16))
       \<and> (length (base64ToBlob rt enc') < 57 \<longrightarrow> decryptV2 rt enc' pw' = Inl BlobTooShort)
       \<and> (length (base64ToBlob rt enc') < 73 \<longrightarrow> isl (decryptV2 rt enc' pw'))
       \<and> (length (base64ToBlob rt enc') < 73
            \<and> parseHeader rt (base64ToBlob rt enc') = Inr (h, ct)
            \<and> deriveKey rt pw' (hdr_salt h) (Some (as_partial (hdr_kdfConfig h))) = Inr (key, rc)
            \<longrightarrow> length ct < 16
              \<and> decryptV2 rt enc' pw' =
                  (case secretbox_open rt ct (hdr_nonce h) key of
                     Inl e \<Rightarrow> Inl e
                   | Inr opened \<Rightarrow> Inl IncorrectPasswordOrCorrupted))"
proof -
  have 1: "\<exists>blob. enc = blobToBase64 blob \<and> 73 \<le> length blob
               \<and> length blob = 57 + length (text_encode rt p) + 16"
    if "encryptV2 rt salt nonce p pw cfg = Inr enc"
    using encryptV2_blob_length [OF sb that] by auto
  have 2: "decryptV2 rt enc' pw' = Inl BlobTooShort" if "length (base64ToBlob rt enc') < 57"
    using parseHeader_too_short [OF that, of rt] by (simp add: decryptV2_def)
  have 4: "length ct < 16
              \<and> decryptV2 rt enc' pw' =
                  (case secretbox_open rt ct (hdr_nonce h) key of
                     Inl e \<Rightarrow> Inl e
                   | Inr opened \<Rightarrow> Inl IncorrectPasswordOrCorrupted)"
    if len: "length (base64ToBlob rt enc') < 73"
      and ph: "parseHeader rt (base64ToBlob rt enc') = Inr (h, ct)"
      and dk: "deriveKey rt pw' (hdr_salt h) (Some (as_partial (hdr_kdfConfig h))) = Inr (key, rc)"
    for h ct key rc
  proof -
    from parseHeader_success [OF ph] len have short: "length ct < 16" by simp
    have "secretbox_open rt ct (hdr_nonce h) key \<noteq> Inr (Some m)" for m
      by (rule secretbox_ok_short [OF sb short])
    then have "decryptV2 rt enc' pw' =
                  (case secretbox_open rt ct (hdr_nonce h) key of
                     Inl e \<Rightarrow> Inl e
                   | Inr opened \<Rightarrow> Inl IncorrectPasswordOrCorrupted)"
      unfolding decryptV2_unfold [OF ph dk]
      by (cases "secretbox_open rt ct (hdr_nonce h) key") (auto split: option.splits)
    with short show ?thesis by blast
  qed
  have 3: "isl (decryptV2 rt enc' pw')" if len: "length (base64ToBlob rt enc') < 73"
  proof (cases "decryptV2 rt enc' pw'")
    case (Inl e)
    then show ?thesis by simp
  next
    case (Inr plain)
    from decryptV2_success [OF Inr] obtain h ct key rc m where
      ph: "parseHeader rt (base64ToBlob rt enc') = Inr (h, ct)"
      and dk: "deriveKey rt pw' (hdr_salt h) (Some (as_partial (hdr_kdfConfig h))) = Inr (key, rc)"
      and op: "secretbox_open rt ct (hdr_nonce h) key = Inr (Some m)" by blast
    from parseHeader_success [OF ph] len have "length ct < 16" by simp
    from secretbox_ok_short [OF sb this] op show ?thesis by blast
  qed
  from 1 2 3 4 show ?thesis by blast
qed

theorem short_blobs_never_decrypt_witness:
  "(\<exists>enc blob. encryptV2 reference_runtime sample_salt sample_nonce [] ''pw'' None = Inr enc
       \<and> enc = blobToBase64 blob \<and> length blob = 73)
   \<and> decryptV2 reference_runtime [] ''pw'' = Inl BlobTooShort
   \<and> (\<exists>hdr. createHeader reference_runtime MOBILE_SCRYPT sample_salt sample_nonce = Inr hdr
         \<and> length (hdr @ [1, 2, 3]) = 60
         \<and> isl (decryptV2 reference_runtime (blobToBase64 (hdr @ [1, 2, 3])) ''pw''))"
proof -
  note t = short_blobs_never_decrypt [OF reference_secretbox_ok]
  from deriveKey_default [OF reference_kdf_ok, of "''pw''" sample_salt] obtain key rc where
    dk: "deriveKey reference_runtime ''pw'' sample_salt None = Inr (key, rc)"
    and rc: "rc = DEFAULT_ARGON2ID \<or> rc = MOBILE_SCRYPT" by blast
  from rc have can: "canonical rc" using canonical_defaults by auto
  from roundtrip_canonical [OF reference_runtime_ok sample_lengths dk can, of "[]"]
  obtain enc where
    enc: "encryptV2 reference_runtime sample_salt sample_nonce [] ''pw'' None = Inr enc" by blast
  with t [where salt = sample_salt and nonce = sample_nonce and p = "[]" and pw = "''pw''"
      and cfg = None and enc = enc]
  obtain blob where "enc = blobToBase64 blob"
    "length blob = 57 + length (text_encode reference_runtime []) + 16" by blast
  with enc have 1: "\<exists>enc blob. encryptV2 reference_runtime sample_salt sample_nonce [] ''pw'' None = Inr enc
       \<and> enc = blobToBase64 blob \<and> length blob = 73"
    by (intro exI [of _ enc] exI [of _ blob]) simp
  have 2: "decryptV2 reference_runtime [] ''pw'' = Inl BlobTooShort"
    using t [where enc' = "[]" and pw' = "''pw''"]
    by (simp add: base64ToBlob_def reference_runtime_def)
  from header_roundtrip [OF reference_text_codec_ok canonical_defaults(3) sample_lengths]
  obtain hdr where
    hdr: "createHeader reference_runtime MOBILE_SCRYPT sample_salt sample_nonce = Inr hdr"
    and len: "length hdr = 57" by blast
  from len have "isl (decryptV2 reference_runtime (blobToBase64 (hdr @ [1, 2, 3])) ''pw'')"
    using t [where enc' = "blobToBase64 (hdr @ [1, 2, 3])" and pw' = "''pw''"] by simp
  with hdr len have 3: "\<exists>hdr. createHeader reference_runtime MOBILE_SCRYPT sample_salt sample_nonce = Inr hdr
         \<and> length (hdr @ [1, 2, 3]) = 60
         \<and> isl (decryptV2 reference_runtime (blobToBase64 (hdr @ [1, 2, 3])) ''pw'')"
    by auto
  from 1 2 3 show ?thesis by blast
qed

text \<open>
  C8. Encrypting the 11-character text \<open>hello world\<close> under any password gives the base64
  text of a blob of exactly 84 bytes (57 header bytes, 11 ciphertext bytes, 16 tag bytes),
  and that text is exactly 112 characters long; with the default configuration the
  encryption succeeds.
\<close>

theorem hello_world_blob_sizes:
  assumes ok: "runtime_ok rt"
  shows "(encryptV2 rt salt nonce ''hello world'' pw cfg = Inr enc \<longrightarrow>
            length enc = 112 \<and> (\<exists>blob. enc = blobToBase64 blob \<and> length blob = 84))
       \<and> (length salt = SALT_LEN \<and> length nonce = NONCE_LEN \<longrightarrow>
            (\<exists>blob. encryptV2 rt salt nonce ''hello world'' pw None = Inr (blobToBase64 blob)
               \<and> length blob = 84 \<and> length (blobToBase64 blob) = 112))"
proof -
  from ok have codec: "text_codec_ok rt" and sb: "secretbox_ok rt" and kdf: "kdf_ok rt"
    by (simp_all add: runtime_ok_def)
  have "is_ascii ''hello world''" by (simp add: is_ascii_def)
  with codec have "text_encode rt ''hello world'' = map byte_of_char ''hello world''"
    unfolding text_codec_ok_def by blast
  then have msg: "length (text_encode rt ''hello world'') = 11" by simp
  have 1: "length enc = 112 \<and> (\<exists>blob. enc = blobToBase64 blob \<and> length blob = 84)"
    if e: "encryptV2 rt salt nonce ''hello world'' pw cfg = Inr enc" for enc cfg
  proof -
    from encryptV2_blob_length [OF sb e] msg obtain blob where
      b: "enc = blobToBase64 blob" "length blob = 84" by auto
    then have "length enc = 112" by (simp add: length_blobToBase64)
    with b show ?thesis by blast
  qed
  have 2: "\<exists>blob. encryptV2 rt salt nonce ''hello world'' pw None = Inr (blobToBase64 blob)
               \<and> length blob = 84 \<and> length (blobToBase64 blob) = 112"
    if "length salt = SALT_LEN" "length nonce = NONCE_LEN"
  proof -
    from that have l: "length salt = 16" "length nonce = 24"
      by (simp_all add: SALT_LEN_def NONCE_LEN_def)
    from deriveKey_default [OF kdf, of pw salt] obtain key rc where
      dk: "deriveKey rt pw salt None = Inr (key, rc)"
      and rc: "rc = DEFAULT_ARGON2ID \<or> rc = MOBILE_SCRYPT" by blast
    from rc have can: "canonical rc" using canonical_defaults by auto
    from roundtrip_canonical [OF ok l dk can, of "''hello world''"] obtain hdr box where
      e: "encryptV2 rt salt nonce ''hello world'' pw None = Inr (blobToBase64 (hdr @ box))"
      by blast
    from 1 [OF e] obtain blob where "blobToBase64 (hdr @ box) = blobToBase64 blob"
      "length blob = 84" "length (blobToBase64 (hdr @ box)) = 112" by blast
    with e show ?thesis by auto
  qed
  from 1 2 show ?thesis by blast
qed

theorem hello_world_blob_sizes_witness:
  "\<exists>blob. encryptV2 reference_runtime sample_salt sample_nonce ''hello world'' ''Tr0ub4dor&3'' None
            = Inr (blobToBase64 blob)
      \<and> length blob = 84 \<and> length (blobToBase64 blob) = 112"
  using hello_world_blob_sizes [OF reference_runtime_ok, of sample_salt sample_nonce]
  by (simp add: SALT_LEN_def NONCE_LEN_def)

text \<open>
  C9. Every configuration that \<open>parseHeader\<close> reconstructs names a known KDF, has key
  length 32 and zero in the three fields of the other variant; and the key length of the
  configuration given to \<open>serializeKdfParams\<close> and \<open>createHeader\<close> has no influence on the
  bytes they write, so it cannot be recovered.
\<close>

theorem parseHeader_config_normalised:
  "(parseHeader rt blob = Inr (h, ct) \<longrightarrow>
      kdf_id (hdr_kdfConfig h) = hdr_kdfId h \<and> hdr_kdfId h \<noteq> OtherKdf
      \<and> kdf_keyLen (hdr_kdfConfig h) = 32
      \<and> (hdr_kdfId h = Argon2id \<longrightarrow>
            kdf_N (hdr_kdfConfig h) = 0 \<and> kdf_r (hdr_kdfConfig h) = 0
            \<and> kdf_s_p (hdr_kdfConfig h) = 0)
      \<and> (hdr_kdfId h = Scrypt \<longrightarrow>
            kdf_m (hdr_kdfConfig h) = 0 \<and> kdf_t (hdr_kdfConfig h) = 0
            \<and> kdf_p (hdr_kdfConfig h) = 0))
   \<and> serializeKdfParams (c\<lparr>kdf_keyLen := l\<rparr>) = serializeKdfParams c
   \<and> createHeader rt (c\<lparr>kdf_keyLen := l\<rparr>) salt nonce = createHeader rt c salt nonce"
proof -
  have "kdf_id (hdr_kdfConfig h) = hdr_kdfId h \<and> hdr_kdfId h \<noteq> OtherKdf
      \<and> kdf_keyLen (hdr_kdfConfig h) = 32
      \<and> (hdr_kdfId h = Argon2id \<longrightarrow>
            kdf_N (hdr_kdfConfig h) = 0 \<and> kdf_r (hdr_kdfConfig h) = 0
            \<and> kdf_s_p (hdr_kdfConfig h) = 0)
      \<and> (hdr_kdfId h = Scrypt \<longrightarrow>
            kdf_m (hdr_kdfConfig h) = 0 \<and> kdf_t (hdr_kdfConfig h) = 0
            \<and> kdf_p (hdr_kdfConfig h) = 0)"
    if p: "parseHeader rt blob = Inr (h, ct)"
  proof -
    from parseHeader_success [OF p] have
      names: "KDF_NAMES (unat (blob ! 4)) = Some (hdr_kdfId h)"
      and de: "deserializeKdfParams (hdr_kdfId h) (slice blob 5 17) = Inr (hdr_kdfConfig h)"
      by simp_all
    from names have "hdr_kdfId h \<noteq> OtherKdf"
      by (auto simp: KDF_NAMES_def split: if_splits)
    with deserializeKdfParams_canonical [OF de] show ?thesis by simp
  qed
  then show ?thesis by simp
qed

theorem parseHeader_config_normalised_witness:
  "\<exists>hdr h. createHeader reference_runtime long_key_config sample_salt sample_nonce = Inr hdr
      \<and> parseHeader reference_runtime hdr = Inr (h, [])
      \<and> kdf_keyLen long_key_config = 64 \<and> kdf_keyLen (hdr_kdfConfig h) = 32
      \<and> hdr_kdfId h = Argon2id \<and> kdf_N (hdr_kdfConfig h) = 0"
proof -
  let ?h = "\<lparr>hdr_magic = MAGIC, hdr_version = VERSION, hdr_kdfId = kdf_id DEFAULT_ARGON2ID,
                hdr_kdfConfig = DEFAULT_ARGON2ID, hdr_salt = sample_salt,
                hdr_nonce = sample_nonce\<rparr>"
  from header_roundtrip [OF reference_text_codec_ok canonical_defaults(1), of sample_salt sample_nonce]
  obtain hdr where
    hdr: "createHeader reference_runtime DEFAULT_ARGON2ID sample_salt sample_nonce = Inr hdr"
    and ph: "\<And>ct. parseHeader reference_runtime (hdr @ ct) = Inr (?h, ct)"
    using sample_lengths by blast
  from ph [of "[]"] have p: "parseHeader reference_runtime hdr = Inr (?h, [])" by simp
  have c: "createHeader reference_runtime long_key_config sample_salt sample_nonce = Inr hdr"
    using parseHeader_config_normalised
      [where rt = reference_runtime and blob = hdr and h = "?h" and ct = "[]"
         and c = DEFAULT_ARGON2ID and l = 64 and salt = sample_salt and nonce = sample_nonce] hdr
    by (simp add: long_key_config_def)
  from parseHeader_config_normalised
      [where rt = reference_runtime and blob = hdr and h = "?h" and ct = "[]"
         and c = DEFAULT_ARGON2ID and l = 64 and salt = sample_salt and nonce = sample_nonce] p
  have "kdf_keyLen (hdr_kdfConfig ?h) = 32 \<and> kdf_N (hdr_kdfConfig ?h) = 0" by simp
  with c p show ?thesis
    by (intro exI [of _ hdr] exI [of _ ?h]) (simp add: long_key_config_def)
qed

text \<open>
  C10. The legacy \<open>decryptFromBase64\<close> rejects every input that decodes to 56 bytes or
  fewer. The legacy encryption of the empty text packs exactly 56 bytes (16 of salt, 24 of
  nonce, 16 of tag), so decrypting it fails as too short, whatever the password, the
  correct one included.
\<close>

theorem legacy_empty_plaintext_rejected:
  "(length (from_base64 rt enc) \<le> 56 \<longrightarrow> decryptFromBase64 rt enc pw' = Inl LegacyTooShort)
   \<and> (runtime_ok rt \<and> length salt = SALT_LEN \<and> length nonce = NONCE_LEN \<longrightarrow>
        (\<exists>packed. encryptToBase64Legacy rt salt nonce [] pw = Inr (blobToBase64 packed)
           \<and> length packed = 56
           \<and> decryptFromBase64 rt (blobToBase64 packed) pw = Inl LegacyTooShort))"
proof -
  have 1: "decryptFromBase64 rt enc pw' = Inl LegacyTooShort"
    if "length (from_base64 rt enc) \<le> 56" for enc pw'
    using that by (simp add: decryptFromBase64_def SALT_LEN_def NONCE_LEN_def Let_def)
  have 2: "\<exists>packed. encryptToBase64Legacy rt salt nonce [] pw = Inr (blobToBase64 packed)
           \<and> length packed = 56
           \<and> decryptFromBase64 rt (blobToBase64 packed) pw = Inl LegacyTooShort"
    if ok: "runtime_ok rt" and salt: "length salt = SALT_LEN" and nonce: "length nonce = NONCE_LEN"
  proof -
    from ok have codec: "text_codec_ok rt" and sb: "secretbox_ok rt" and kdf: "kdf_ok rt"
      and b64: "base64_ok rt" by (simp_all add: runtime_ok_def)
    from salt nonce have l: "length salt = 16" "length nonce = 24"
      by (simp_all add: SALT_LEN_def NONCE_LEN_def)
    have "is_ascii []" by (simp add: is_ascii_def)
    with codec have "text_encode rt [] = map byte_of_char []"
      unfolding text_codec_ok_def by blast
    then have msg: "text_encode rt [] = []" by simp
    from kdf_ok_scrypt_mobile [OF kdf] obtain key where
      key: "scrypt rt (text_encode rt pw) salt 4096 8 1 32 = Inr key" "length key = 32" by blast
    from seal_open [OF sb key(2) l(2), of "[]"] obtain box where
      box: "secretbox rt [] nonce key = Inr (Some box)" "length box = 16" by auto
    have "encryptToBase64Legacy rt salt nonce [] pw = Inr (blobToBase64 (salt @ nonce @ box))"
      using key(1) box l
      by (simp add: encryptToBase64Legacy_def deriveKeyLegacy_def SCRYPT_N_def SCRYPT_r_def
            SCRYPT_p_def KEY_LEN_def msg typed_set_def zeros_def)
    moreover have "length (salt @ nonce @ box) = 56" using l box(2) by simp
    moreover have "from_base64 rt (blobToBase64 (salt @ nonce @ box)) = salt @ nonce @ box"
      using b64 by (simp add: base64_ok_def)
    then have "decryptFromBase64 rt (blobToBase64 (salt @ nonce @ box)) pw = Inl LegacyTooShort"
      using 1 [of "blobToBase64 (salt @ nonce @ box)" pw] l box(2) by simp
    ultimately show ?thesis by blast
  qed
  from 1 2 show ?thesis by blast
qed

theorem legacy_empty_plaintext_rejected_witness:
  "\<exists>packed. encryptToBase64Legacy reference_runtime sample_salt sample_nonce [] ''pw''
              = Inr (blobToBase64 packed)
      \<and> length packed = 56
      \<and> decryptFromBase64 reference_runtime (blobToBase64 packed) ''pw'' = Inl LegacyTooShort"
  using legacy_empty_plaintext_rejected [where rt = reference_runtime and salt = sample_salt
      and nonce = sample_nonce and pw = "''pw''"] reference_runtime_ok
  by (simp add: SALT_LEN_def NONCE_LEN_def)

end
